theory Spec2Isabelle
  imports Main "HOL-Library.Word"
begin

unbundle bit_operations_syntax

section \<open>Machine model\<close>

text \<open>
  The driver of \<^verbatim>\<open>vga.c\<close> runs on a 32-bit microcontroller and talks to two
  peripherals through the vendor SDK: a DMA controller with twelve channels and two PIO
  blocks with four state machines each. The model keeps the program's view of them:
  byte-addressed memory, the DMA channel registers, the PIO resources the driver
  touches, the global variable \<^verbatim>\<open>memcpy_dma_chan\<close>, and a log of the hardware
  operations the CPU issues, in program order.

  Memory is storage: the byte at an address changes only when something stores to that
  address. The registers of the peripherals are the other fields of the state and have
  no place in \<open>mem\<close>; what the model says about a bulk transfer is therefore said about
  transfers between buffers in memory, not about one that a caller aims at the address
  of a peripheral register.
\<close>

type_synonym u8 = "8 word"
type_synonym u16 = "16 word"
type_synonym u32 = "32 word"

datatype PIO = pio0 | pio1

datatype dma_size = DMA_SIZE_8 | DMA_SIZE_16 | DMA_SIZE_32

text \<open>Data-request (pacing) signals: the TX or RX FIFO of a PIO state machine, or none.\<close>

datatype dreq = DREQ_PIO_TX PIO nat | DREQ_PIO_RX PIO nat | DREQ_FORCE

definition DREQ_PIO0_TX2 :: dreq where
  "DREQ_PIO0_TX2 = DREQ_PIO_TX pio0 2"

definition DREQ_PIO1_TX2 :: dreq where
  "DREQ_PIO1_TX2 = DREQ_PIO_TX pio1 2"

text \<open>The SDK's \<^verbatim>\<open>pio_get_dreq(pio, sm, is_tx)\<close>: the request signal of one FIFO.\<close>

definition pio_get_dreq :: "PIO \<Rightarrow> nat \<Rightarrow> bool \<Rightarrow> dreq" where
  "pio_get_dreq pio sm is_tx = (if is_tx then DREQ_PIO_TX pio sm else DREQ_PIO_RX pio sm)"

text \<open>The fields of a channel's control word that \<^verbatim>\<open>dma_channel_config\<close> holds.\<close>

record dma_channel_config =
  data_size :: dma_size
  incr_read :: bool
  incr_write :: bool
  treq_sel :: dreq
  chain_to :: nat
  en :: bool
  ring_size :: nat
  ring_sel :: bool
  bswap :: bool
  irq_quiet :: bool
  sniff_en :: bool
  high_priority :: bool

text \<open>
  One DMA channel: the address registers, the reload value written to the transfer-count
  register, the live count of the running sequence, the control word and the busy flag.
\<close>

record dma_channel =
  read_addr :: u32
  write_addr :: u32
  trans_count_reload :: u32
  trans_count :: u32
  ctrl :: dma_channel_config
  busy :: bool

datatype hw_event =
    PIO_ADD_PROGRAM PIO nat
  | SM_PROGRAM_INIT PIO nat nat nat
  | DMA_CLAIM_UNUSED_CHANNEL int
  | DMA_CHANNEL_CONFIGURE nat bool
  | PIO_SM_PUT PIO nat u32
  | PIO_ENABLE_SM_MASK_IN_SYNC PIO u32
  | DMA_START_CHANNEL_MASK u32

record machine =
  mem :: "u32 \<Rightarrow> u8"
  dma_ch :: "nat \<Rightarrow> dma_channel"
  dma_claimed :: "nat set"
  used_instruction_space :: "PIO \<Rightarrow> nat set"
  sm_enabled :: "PIO \<Rightarrow> nat \<Rightarrow> bool"
  txf :: "PIO \<Rightarrow> nat \<Rightarrow> u32 list"
  memcpy_dma_chan :: int
  hw_log :: "hw_event list"

datatype error = Panic_no_program_space | Panic_no_dma_channel | Hang_tx_fifo_full

definition NUM_DMA_CHANNELS :: nat where
  "NUM_DMA_CHANNELS = 12"

subsection \<open>Constants of the driver\<close>

definition TXCOUNT :: u32 where
  "TXCOUNT = 76800"

definition H_ACTIVE :: u32 where
  "H_ACTIVE = 339"

definition V_ACTIVE_PLUS_FRONT :: u32 where
  "V_ACTIVE_PLUS_FRONT = 243"

definition RGB_ACTIVE :: u32 where
  "RGB_ACTIVE = 319"

definition BLACK :: u16 where "BLACK = 0"
definition RED :: u16 where "RED = 4"
definition GREEN :: u16 where "GREEN = 2"
definition YELLOW :: u16 where "YELLOW = 6"
definition BLUE :: u16 where "BLUE = 1"
definition MAGENTA :: u16 where "MAGENTA = 5"
definition CYAN :: u16 where "CYAN = 3"
definition WHITE :: u16 where "WHITE = 7"

text \<open>
  Where the linker puts the two global objects: the address of
  \<^verbatim>\<open>vga_data_array[0]\<close> and the address of the variable
  \<^verbatim>\<open>address_pointer\<close> (a four-byte cell).
\<close>

record symbols =
  vga_data_array :: u32
  address_pointer_cell :: u32

subsection \<open>The DMA controller\<close>

definition dma_channel_get_default_config :: "nat \<Rightarrow> dma_channel_config" where
  "dma_channel_get_default_config channel =
     \<lparr> data_size = DMA_SIZE_32, incr_read = True, incr_write = False,
       treq_sel = DREQ_FORCE, chain_to = channel, en = True,
       ring_size = 0, ring_sel = False, bswap = False, irq_quiet = False,
       sniff_en = False, high_priority = False \<rparr>"

definition channel_config_set_transfer_data_size ::
  "dma_size \<Rightarrow> dma_channel_config \<Rightarrow> dma_channel_config" where
  "channel_config_set_transfer_data_size sz c = c\<lparr>data_size := sz\<rparr>"

definition channel_config_set_read_increment ::
  "bool \<Rightarrow> dma_channel_config \<Rightarrow> dma_channel_config" where
  "channel_config_set_read_increment incr c = c\<lparr>incr_read := incr\<rparr>"

definition channel_config_set_write_increment ::
  "bool \<Rightarrow> dma_channel_config \<Rightarrow> dma_channel_config" where
  "channel_config_set_write_increment incr c = c\<lparr>incr_write := incr\<rparr>"

definition channel_config_set_dreq :: "dreq \<Rightarrow> dma_channel_config \<Rightarrow> dma_channel_config" where
  "channel_config_set_dreq d c = c\<lparr>treq_sel := d\<rparr>"

definition channel_config_set_chain_to :: "nat \<Rightarrow> dma_channel_config \<Rightarrow> dma_channel_config" where
  "channel_config_set_chain_to target c = c\<lparr>chain_to := target\<rparr>"

text \<open>
  A trigger starts a channel that is enabled and not already busy: the reload value
  becomes the live transfer count and the busy flag goes up. Any other trigger is ignored.
\<close>

definition triggered :: "dma_channel \<Rightarrow> dma_channel" where
  "triggered c =
     (if en (ctrl c) \<and> \<not> busy c then c\<lparr>trans_count := trans_count_reload c, busy := True\<rparr> else c)"

definition dma_trigger :: "nat \<Rightarrow> machine \<Rightarrow> machine" where
  "dma_trigger channel st = st\<lparr>dma_ch := (dma_ch st)(channel := triggered (dma_ch st channel))\<rparr>"

text \<open>
  \<^verbatim>\<open>dma_channel_configure\<close> writes the read address, the write address, the transfer
  count and the control word, in that order; the last write is a trigger when asked for.
\<close>

definition dma_channel_configure ::
  "nat \<Rightarrow> dma_channel_config \<Rightarrow> u32 \<Rightarrow> u32 \<Rightarrow> u32 \<Rightarrow> bool \<Rightarrow> machine \<Rightarrow> machine" where
  "dma_channel_configure channel config wr rd transfer_count trigger st =
     (let c = (dma_ch st channel)\<lparr>read_addr := rd, write_addr := wr,
                 trans_count_reload := transfer_count, ctrl := config\<rparr>;
          st1 = st\<lparr>dma_ch := (dma_ch st)(channel := c),
                   hw_log := hw_log st @ [DMA_CHANNEL_CONFIGURE channel trigger]\<rparr>
      in if trigger then dma_trigger channel st1 else st1)"

definition dma_size_bytes :: "dma_size \<Rightarrow> nat" where
  "dma_size_bytes sz = (case sz of DMA_SIZE_8 \<Rightarrow> 1 | DMA_SIZE_16 \<Rightarrow> 2 | DMA_SIZE_32 \<Rightarrow> 4)"

text \<open>The end of a transfer sequence: the busy flag drops and the chained channel, if
  it is another channel, is triggered.\<close>

definition dma_finish :: "nat \<Rightarrow> machine \<Rightarrow> machine" where
  "dma_finish channel st =
     (let c = dma_ch st channel;
          st1 = st\<lparr>dma_ch := (dma_ch st)(channel := c\<lparr>busy := False\<rparr>)\<rparr>
      in if chain_to (ctrl c) \<noteq> channel then dma_trigger (chain_to (ctrl c)) st1 else st1)"

text \<open>One bus transfer of a unit of \<open>n\<close> bytes from \<open>rd\<close> to \<open>wr\<close>: all bytes are read
  before any is written.\<close>

definition copy_unit :: "nat \<Rightarrow> u32 \<Rightarrow> u32 \<Rightarrow> (u32 \<Rightarrow> u8) \<Rightarrow> (u32 \<Rightarrow> u8)" where
  "copy_unit n rd wr m = fold (\<lambda>i m'. m'(wr + of_nat i := m (rd + of_nat i))) [0..<n] m"

text \<open>
  One step of a memory-to-memory channel: a busy channel moves one unit, advances the
  addresses that increment, counts down, and finishes when the count reaches zero.
\<close>

definition dma_step :: "nat \<Rightarrow> machine \<Rightarrow> machine" where
  "dma_step channel st =
     (let c = dma_ch st channel in
      if \<not> busy c then st
      else if trans_count c = 0 then dma_finish channel st
      else
        let n = dma_size_bytes (data_size (ctrl c));
            c' = c\<lparr>read_addr := (if incr_read (ctrl c) then read_addr c + of_nat n else read_addr c),
                   write_addr := (if incr_write (ctrl c) then write_addr c + of_nat n else write_addr c),
                   trans_count := trans_count c - 1\<rparr>;
            st1 = st\<lparr>mem := copy_unit n (read_addr c) (write_addr c) (mem st),
                     dma_ch := (dma_ch st)(channel := c')\<rparr>
        in if trans_count c' = 0 then dma_finish channel st1 else st1)"

text \<open>\<^verbatim>\<open>while (dma_channel_is_busy(channel)) tight_loop_contents();\<close>: the CPU spins
  while the channel works through its sequence. The scanout channels that run at the same
  time read memory and write peripheral registers only, so their progress commutes with
  these steps; it enters the model as chain-completion events between two calls.\<close>

function dma_channel_wait_for_finish_blocking :: "nat \<Rightarrow> machine \<Rightarrow> machine" where
  "dma_channel_wait_for_finish_blocking channel st =
     (if busy (dma_ch st channel)
      then dma_channel_wait_for_finish_blocking channel (dma_step channel st)
      else st)"
  by pat_completeness auto

lemma dma_trigger_other:
  "k \<noteq> channel \<Longrightarrow> dma_ch (dma_trigger k st) channel = dma_ch st channel"
  by (simp add: dma_trigger_def)

lemma dma_finish_idle: "\<not> busy (dma_ch (dma_finish channel st) channel)"
  by (simp add: dma_finish_def Let_def dma_trigger_other)

lemma dma_step_measure:
  assumes "busy (dma_ch st channel)"
  shows "(if busy (dma_ch (dma_step channel st) channel)
          then Suc (unat (trans_count (dma_ch (dma_step channel st) channel))) else 0)
         < Suc (unat (trans_count (dma_ch st channel)))"
proof (cases "trans_count (dma_ch st channel) = 0")
  case True
  with assms show ?thesis
    by (simp add: dma_step_def Let_def dma_finish_idle)
next
  case False
  then have "0 < unat (trans_count (dma_ch st channel))"
    by (simp add: unat_gt_0)
  with False have dec: "unat (trans_count (dma_ch st channel) - 1) < unat (trans_count (dma_ch st channel))"
    by (simp add: unat_minus_one)
  with assms False show ?thesis
    by (simp add: dma_step_def Let_def dma_finish_idle)
qed

termination dma_channel_wait_for_finish_blocking
proof (relation "measure (\<lambda>(channel, st).
         if busy (dma_ch st channel) then Suc (unat (trans_count (dma_ch st channel))) else 0)")
  show "wf (measure (\<lambda>(channel, st).
         if busy (dma_ch st channel) then Suc (unat (trans_count (dma_ch st channel))) else 0))"
    by simp
next
  fix channel :: nat and st :: machine
  assume "busy (dma_ch st channel)"
  then show "((channel, dma_step channel st), (channel, st)) \<in> measure (\<lambda>(channel, st).
         if busy (dma_ch st channel) then Suc (unat (trans_count (dma_ch st channel))) else 0)"
    using dma_step_measure [of st channel] by simp
qed

declare dma_channel_wait_for_finish_blocking.simps [simp del]

subsection \<open>Bulk-memory operations\<close>

text \<open>
  \<^verbatim>\<open>void dma_memset(void *dest, uint8_t val, size_t num)\<close>. The channel reads from
  \<^verbatim>\<open>&val\<close>, so the parameter has a memory cell of its own: \<open>val_addr\<close> is the address
  the compiler gives it, and the call stores \<open>val\<close> there. \<open>dma_memset_start\<close> is the
  function up to and including \<^verbatim>\<open>dma_channel_configure\<close>; \<open>dma_memset\<close> adds the
  blocking wait.
\<close>

definition dma_memset_start :: "u32 \<Rightarrow> u32 \<Rightarrow> u8 \<Rightarrow> u32 \<Rightarrow> machine \<Rightarrow> machine" where
  "dma_memset_start val_addr dest val num st =
     (let chan = nat (memcpy_dma_chan st);
          st0 = st\<lparr>mem := (mem st)(val_addr := val)\<rparr>;
          c = dma_channel_get_default_config chan;
          c = channel_config_set_transfer_data_size DMA_SIZE_8 c;
          c = channel_config_set_read_increment False c;
          c = channel_config_set_write_increment True c
      in dma_channel_configure chan c dest val_addr num True st0)"

definition dma_memset :: "u32 \<Rightarrow> u32 \<Rightarrow> u8 \<Rightarrow> u32 \<Rightarrow> machine \<Rightarrow> machine" where
  "dma_memset val_addr dest val num st =
     dma_channel_wait_for_finish_blocking (nat (memcpy_dma_chan st))
       (dma_memset_start val_addr dest val num st)"

text \<open>\<^verbatim>\<open>void dma_memcpy(void *dest, void *src, size_t num)\<close>, split the same way.\<close>

definition dma_memcpy_start :: "u32 \<Rightarrow> u32 \<Rightarrow> u32 \<Rightarrow> machine \<Rightarrow> machine" where
  "dma_memcpy_start dest src num st =
     (let chan = nat (memcpy_dma_chan st);
          c = dma_channel_get_default_config chan;
          c = channel_config_set_transfer_data_size DMA_SIZE_8 c;
          c = channel_config_set_read_increment True c;
          c = channel_config_set_write_increment True c
      in dma_channel_configure chan c dest src num True st)"

definition dma_memcpy :: "u32 \<Rightarrow> u32 \<Rightarrow> u32 \<Rightarrow> machine \<Rightarrow> machine" where
  "dma_memcpy dest src num st =
     dma_channel_wait_for_finish_blocking (nat (memcpy_dma_chan st))
       (dma_memcpy_start dest src num st)"

text \<open>
  \<^verbatim>\<open>dma_memset(vga_data_array, (color) | (color << 3), TXCOUNT)\<close>: the 16-bit colour is
  promoted to a 32-bit integer for the shift and the or, and the result is converted to
  the 8-bit parameter of \<^verbatim>\<open>dma_memset\<close>.
\<close>

definition VGA_fillScreen :: "symbols \<Rightarrow> u32 \<Rightarrow> u16 \<Rightarrow> machine \<Rightarrow> machine" where
  "VGA_fillScreen L val_addr color st =
     dma_memset val_addr (vga_data_array L)
       (ucast ((ucast color :: u32) OR push_bit 3 (ucast color :: u32))) TXCOUNT st"

definition VGA_drawFrame :: "symbols \<Rightarrow> u32 \<Rightarrow> machine \<Rightarrow> machine" where
  "VGA_drawFrame L src st = dma_memcpy (vga_data_array L) src TXCOUNT st"

subsection \<open>Notions used to state the properties\<close>

text \<open>The shared channel is not in the middle of a transfer: the state in which the
  blocking operations are called and which they restore.\<close>

definition bulk_channel_idle :: "machine \<Rightarrow> bool" where
  "bulk_channel_idle st = (\<not> busy (dma_ch st (nat (memcpy_dma_chan st))))"

text \<open>
  The source of a copy is held constant during the call: after any number \<open>k\<close> of the
  call's transfers, each of the \<open>num\<close> source bytes still has its value from before
  the call.
\<close>

definition src_held_constant :: "u32 \<Rightarrow> u32 \<Rightarrow> u32 \<Rightarrow> machine \<Rightarrow> bool" where
  "src_held_constant dest src num st =
     (\<forall>k \<le> unat num. \<forall>j < unat num.
        mem ((dma_step (nat (memcpy_dma_chan st)) ^^ k) (dma_memcpy_start dest src num st))
            (src + of_nat j)
        = mem st (src + of_nat j))"

text \<open>Every byte of the buffer of \<open>n\<close> bytes at \<open>base\<close> is \<open>v\<close>.\<close>

definition buffer_all :: "u32 \<Rightarrow> u32 \<Rightarrow> u8 \<Rightarrow> machine \<Rightarrow> bool" where
  "buffer_all base n v st = (\<forall>i < unat n. mem st (base + of_nat i) = v)"

text \<open>The memory after \<open>k\<close> byte transfers from \<open>r\<close> (advancing when \<open>rinc\<close>) to
  \<open>w\<close>, \<open>w + 1\<close>, \<dots>: what the transfer loop is shown to compute.\<close>

fun byte_transfers :: "bool \<Rightarrow> u32 \<Rightarrow> u32 \<Rightarrow> (u32 \<Rightarrow> u8) \<Rightarrow> nat \<Rightarrow> (u32 \<Rightarrow> u8)" where
  "byte_transfers rinc r w m 0 = m"
| "byte_transfers rinc r w m (Suc k) =
     (byte_transfers rinc r w m k)
       (w + of_nat k := byte_transfers rinc r w m k (if rinc then r + of_nat k else r))"

subsection \<open>Channel allocation and the PIO blocks\<close>

definition first_unclaimed :: "nat set \<Rightarrow> nat option" where
  "first_unclaimed claimed = find (\<lambda>c. c \<notin> claimed) [0..<NUM_DMA_CHANNELS]"

text \<open>\<^verbatim>\<open>dma_claim_unused_channel(required)\<close>: the lowest unclaimed channel, now claimed;
  with none left it panics when \<open>required\<close> and returns \<open>-1\<close> otherwise.\<close>

definition dma_claim_unused_channel :: "bool \<Rightarrow> machine \<Rightarrow> error + (int \<times> machine)" where
  "dma_claim_unused_channel required st =
     (case first_unclaimed (dma_claimed st) of
        None \<Rightarrow> if required then Inl Panic_no_dma_channel else Inr (- 1, st)
      | Some c \<Rightarrow>
          Inr (int c, st\<lparr>dma_claimed := insert c (dma_claimed st),
                         hw_log := hw_log st @ [DMA_CLAIM_UNUSED_CHANNEL (int c)]\<rparr>))"

text \<open>\<^verbatim>\<open>dma_start_channel_mask\<close> writes the multi-channel trigger register: every
  channel whose bit is set is triggered, all at once.\<close>

definition dma_start_channel_mask :: "u32 \<Rightarrow> machine \<Rightarrow> machine" where
  "dma_start_channel_mask chan_mask st =
     st\<lparr>dma_ch := (\<lambda>k. if k < NUM_DMA_CHANNELS \<and> bit chan_mask k
                       then triggered (dma_ch st k) else dma_ch st k),
        hw_log := hw_log st @ [DMA_START_CHANNEL_MASK chan_mask]\<rparr>"

text \<open>A PIO program as far as loading it goes: its length and its origin (\<open>-1\<close> when
  it can be placed anywhere). The three programs of the driver come from the assembled
  \<^verbatim>\<open>.pio.h\<close> headers and are parameters of the model.\<close>

record pio_program =
  prog_length :: nat
  prog_origin :: int

definition PIO_INSTRUCTION_COUNT :: nat where
  "PIO_INSTRUCTION_COUNT = 32"

definition program_slots :: "nat \<Rightarrow> nat \<Rightarrow> nat list" where
  "program_slots len offset = [offset ..< offset + len]"

definition program_fits :: "nat set \<Rightarrow> nat \<Rightarrow> nat \<Rightarrow> bool" where
  "program_fits used len offset = (\<forall>i \<in> set (program_slots len offset). i \<notin> used)"

text \<open>The SDK looks for room from the top of the instruction memory downwards.\<close>

definition find_offset_for_program :: "PIO \<Rightarrow> pio_program \<Rightarrow> machine \<Rightarrow> nat option" where
  "find_offset_for_program pio program st =
     (let used = used_instruction_space st pio; len = prog_length program in
      if 0 \<le> prog_origin program then
        (if int PIO_INSTRUCTION_COUNT - int len < prog_origin program then None
         else if program_fits used len (nat (prog_origin program))
              then Some (nat (prog_origin program)) else None)
      else if PIO_INSTRUCTION_COUNT < len then None
      else find (program_fits used len) (rev [0 ..< Suc (PIO_INSTRUCTION_COUNT - len)]))"

definition pio_add_program :: "PIO \<Rightarrow> pio_program \<Rightarrow> machine \<Rightarrow> error + (nat \<times> machine)" where
  "pio_add_program pio program st =
     (case find_offset_for_program pio program st of
        None \<Rightarrow> Inl Panic_no_program_space
      | Some offset \<Rightarrow>
          Inr (offset,
               st\<lparr>used_instruction_space := (used_instruction_space st)
                      (pio := used_instruction_space st pio
                                \<union> set (program_slots (prog_length program) offset)),
                  hw_log := hw_log st @ [PIO_ADD_PROGRAM pio offset]\<rparr>))"

text \<open>
  Modelled from the spec: \<^verbatim>\<open>hsync_program_init\<close>, \<^verbatim>\<open>vsync_program_init\<close> and
  \<^verbatim>\<open>rgb_program_init\<close> are defined in the \<^verbatim>\<open>.pio.h\<close> headers, which are not among
  the sources. The specification treats the timing generators as opaque and has them
  configured first and started later, all together; so an init helper configures its
  state machine and starts nothing.
\<close>

definition hsync_program_init :: "PIO \<Rightarrow> nat \<Rightarrow> nat \<Rightarrow> nat \<Rightarrow> machine \<Rightarrow> machine" where
  "hsync_program_init pio sm offset pin st =
     st\<lparr>hw_log := hw_log st @ [SM_PROGRAM_INIT pio sm offset pin]\<rparr>"

definition vsync_program_init :: "PIO \<Rightarrow> nat \<Rightarrow> nat \<Rightarrow> nat \<Rightarrow> machine \<Rightarrow> machine" where
  "vsync_program_init pio sm offset pin st =
     st\<lparr>hw_log := hw_log st @ [SM_PROGRAM_INIT pio sm offset pin]\<rparr>"

definition rgb_program_init :: "PIO \<Rightarrow> nat \<Rightarrow> nat \<Rightarrow> nat \<Rightarrow> machine \<Rightarrow> machine" where
  "rgb_program_init pio sm offset pin st =
     st\<lparr>hw_log := hw_log st @ [SM_PROGRAM_INIT pio sm offset pin]\<rparr>"

definition PIO_TX_FIFO_DEPTH :: nat where
  "PIO_TX_FIFO_DEPTH = 4"

text \<open>\<^verbatim>\<open>pio_sm_put_blocking\<close> spins while the TX FIFO is full. Nothing in the model
  drains a FIFO, so a put into a full one never returns.\<close>

definition pio_sm_put_blocking :: "PIO \<Rightarrow> nat \<Rightarrow> u32 \<Rightarrow> machine \<Rightarrow> error + machine" where
  "pio_sm_put_blocking pio sm data st =
     (if length (txf st pio sm) < PIO_TX_FIFO_DEPTH
      then Inr (st\<lparr>txf := (txf st)(pio := (txf st pio)(sm := txf st pio sm @ [data])),
                   hw_log := hw_log st @ [PIO_SM_PUT pio sm data]\<rparr>)
      else Inl Hang_tx_fifo_full)"

text \<open>\<^verbatim>\<open>pio_enable_sm_mask_in_sync\<close>: one register write that enables every state
  machine whose bit is set.\<close>

definition pio_enable_sm_mask_in_sync :: "PIO \<Rightarrow> u32 \<Rightarrow> machine \<Rightarrow> machine" where
  "pio_enable_sm_mask_in_sync pio sm_mask st =
     st\<lparr>sm_enabled := (sm_enabled st)
            (pio := (\<lambda>sm. if sm < 4 \<and> bit sm_mask sm then True else sm_enabled st pio sm)),
        hw_log := hw_log st @ [PIO_ENABLE_SM_MASK_IN_SYNC pio sm_mask]\<rparr>"

text \<open>The bus addresses of the two registers the scanout channels point at:
  \<^verbatim>\<open>&pio->txf[sm]\<close> and \<^verbatim>\<open>&dma_hw->ch[channel].read_addr\<close>.\<close>

definition pio_txf_addr :: "PIO \<Rightarrow> nat \<Rightarrow> u32" where
  "pio_txf_addr pio sm =
     (case pio of pio0 \<Rightarrow> 0x50200000 | pio1 \<Rightarrow> 0x50300000) + 0x10 + 4 * of_nat sm"

definition dma_ch_read_addr_reg :: "nat \<Rightarrow> u32" where
  "dma_ch_read_addr_reg channel = 0x50000000 + 0x40 * of_nat channel"

subsection \<open>Initialisation\<close>

text \<open>
  \<^verbatim>\<open>VGA_initDisplay\<close>, statement by statement. A panic of the SDK or a put that never
  returns ends the function with the error.
\<close>

definition VGA_initDisplay ::
  "symbols \<Rightarrow> pio_program \<Rightarrow> pio_program \<Rightarrow> pio_program \<Rightarrow>
   nat \<Rightarrow> nat \<Rightarrow> nat \<Rightarrow> nat \<Rightarrow> machine \<Rightarrow> error + machine" where
  "VGA_initDisplay L thd_hsync_program thd_vsync_program thd_rgb_program
       vsync_pin hsync_pin r_pin pclk_pin st =
     (let pio = pio1 in
      case pio_add_program pio thd_hsync_program st of Inl e \<Rightarrow> Inl e | Inr (hsync_offset, st1) \<Rightarrow>
     (case pio_add_program pio thd_vsync_program st1 of Inl e \<Rightarrow> Inl e | Inr (vsync_offset, st2) \<Rightarrow>
     (case pio_add_program pio thd_rgb_program st2 of Inl e \<Rightarrow> Inl e | Inr (rgb_offset, st3) \<Rightarrow>
     (let hsync_sm = 0; vsync_sm = 1; pclk_sm = 2; rgb_sm = 3;
          st4 = hsync_program_init pio hsync_sm hsync_offset hsync_pin st3;
          st5 = vsync_program_init pio vsync_sm vsync_offset vsync_pin st4;
          st6 = rgb_program_init pio rgb_sm rgb_offset r_pin st5
      in
      case dma_claim_unused_channel True st6 of Inl e \<Rightarrow> Inl e | Inr (rgb_chan_0, st7) \<Rightarrow>
     (case dma_claim_unused_channel True st7 of Inl e \<Rightarrow> Inl e | Inr (rgb_chan_1, st8) \<Rightarrow>
     (case dma_claim_unused_channel True st8 of Inl e \<Rightarrow> Inl e | Inr (chan, st9) \<Rightarrow>
     (let st10 = st9\<lparr>memcpy_dma_chan := chan\<rparr>;
          c0 = dma_channel_get_default_config (nat rgb_chan_0);
          c0 = channel_config_set_transfer_data_size DMA_SIZE_8 c0;
          c0 = channel_config_set_read_increment True c0;
          c0 = channel_config_set_write_increment False c0;
          c0 = (if pio = pio0 then channel_config_set_dreq DREQ_PIO0_TX2 c0
                else channel_config_set_dreq DREQ_PIO1_TX2 c0);
          c0 = channel_config_set_chain_to (nat rgb_chan_1) c0;
          st11 = dma_channel_configure (nat rgb_chan_0) c0 (pio_txf_addr pio rgb_sm)
                   (vga_data_array L) TXCOUNT False st10;
          c1 = dma_channel_get_default_config (nat rgb_chan_1);
          c1 = channel_config_set_transfer_data_size DMA_SIZE_32 c1;
          c1 = channel_config_set_read_increment False c1;
          c1 = channel_config_set_write_increment False c1;
          c1 = channel_config_set_chain_to (nat rgb_chan_0) c1;
          st12 = dma_channel_configure (nat rgb_chan_1) c1 (dma_ch_read_addr_reg (nat rgb_chan_0))
                   (address_pointer_cell L) 1 False st11
      in
      case pio_sm_put_blocking pio hsync_sm H_ACTIVE st12 of Inl e \<Rightarrow> Inl e | Inr st13 \<Rightarrow>
     (case pio_sm_put_blocking pio vsync_sm 239 st13 of Inl e \<Rightarrow> Inl e | Inr st14 \<Rightarrow>
     (case pio_sm_put_blocking pio rgb_sm RGB_ACTIVE st14 of Inl e \<Rightarrow> Inl e | Inr st15 \<Rightarrow>
     (let st16 = pio_enable_sm_mask_in_sync pio
                   (push_bit hsync_sm 1 OR push_bit vsync_sm 1 OR push_bit rgb_sm 1
                    OR push_bit pclk_sm 1) st15
      in Inr (dma_start_channel_mask (push_bit (nat rgb_chan_0) 1) st16)))))))))))"

text \<open>The control words that \<^verbatim>\<open>VGA_initDisplay\<close> builds in \<^verbatim>\<open>c0\<close> and
  \<^verbatim>\<open>c1\<close> for channels \<open>A\<close> and \<open>B\<close>.\<close>

definition scanout_config_A :: "nat \<Rightarrow> nat \<Rightarrow> dma_channel_config" where
  "scanout_config_A A B =
     (dma_channel_get_default_config A)
       \<lparr>data_size := DMA_SIZE_8, incr_read := True, incr_write := False,
        treq_sel := DREQ_PIO1_TX2, chain_to := B\<rparr>"

definition scanout_config_B :: "nat \<Rightarrow> nat \<Rightarrow> dma_channel_config" where
  "scanout_config_B A B =
     (dma_channel_get_default_config B)
       \<lparr>data_size := DMA_SIZE_32, incr_read := False, incr_write := False, chain_to := A\<rparr>"

text \<open>The channels that the first and the second \<^verbatim>\<open>dma_claim_unused_channel\<close> of
  \<^verbatim>\<open>VGA_initDisplay\<close> return when it is called in state \<open>st\<close>: the locals
  \<^verbatim>\<open>rgb_chan_0\<close> (channel A) and \<^verbatim>\<open>rgb_chan_1\<close> (channel B).\<close>

definition rgb_chan_0 :: "machine \<Rightarrow> nat" where
  "rgb_chan_0 st = the (first_unclaimed (dma_claimed st))"

definition rgb_chan_1 :: "machine \<Rightarrow> nat" where
  "rgb_chan_1 st = the (first_unclaimed (insert (rgb_chan_0 st) (dma_claimed st)))"

text \<open>The state machines of the three timing generators, as \<^verbatim>\<open>VGA_initDisplay\<close>
  numbers them.\<close>

definition hsync_sm :: nat where "hsync_sm = 0"
definition vsync_sm :: nat where "vsync_sm = 1"
definition rgb_sm :: nat where "rgb_sm = 3"

subsection \<open>The scanout chain after arming\<close>

definition load32 :: "(u32 \<Rightarrow> u8) \<Rightarrow> u32 \<Rightarrow> u32" where
  "load32 m a = ucast (m a) OR push_bit 8 (ucast (m (a + 1)))
                OR push_bit 16 (ucast (m (a + 2))) OR push_bit 24 (ucast (m (a + 3)))"

definition store32 :: "u32 \<Rightarrow> u32 \<Rightarrow> (u32 \<Rightarrow> u8) \<Rightarrow> (u32 \<Rightarrow> u8)" where
  "store32 a v m = m(a := ucast v, a + 1 := ucast (drop_bit 8 v),
                     a + 2 := ucast (drop_bit 16 v), a + 3 := ucast (drop_bit 24 v))"

text \<open>A word written to the address of a channel's read-address register sets that
  register; other register addresses are not decoded.\<close>

definition write_channel_register :: "u32 \<Rightarrow> u32 \<Rightarrow> machine \<Rightarrow> machine" where
  "write_channel_register addr v st =
     (case find (\<lambda>k. dma_ch_read_addr_reg k = addr) [0..<NUM_DMA_CHANNELS] of
        None \<Rightarrow> st
      | Some k \<Rightarrow> st\<lparr>dma_ch := (dma_ch st)(k := (dma_ch st k)\<lparr>read_addr := v\<rparr>)\<rparr>)"

text \<open>
  A chain-completion event: a busy channel whose destination is a peripheral register
  runs its sequence to the end. The addresses that increment have advanced by the whole
  sequence, memory is as it was, a word moved between fixed addresses has reached the
  register it was aimed at, and then the sequence finishes: the busy flag drops and the
  chained channel is triggered. On an idle channel the event does nothing.
\<close>

definition dma_sequence_complete :: "nat \<Rightarrow> machine \<Rightarrow> machine" where
  "dma_sequence_complete channel st =
     (let c = dma_ch st channel in
      if \<not> busy c then st
      else
        let span = trans_count c * of_nat (dma_size_bytes (data_size (ctrl c)));
            c' = c\<lparr>read_addr := (if incr_read (ctrl c) then read_addr c + span else read_addr c),
                   write_addr := (if incr_write (ctrl c) then write_addr c + span else write_addr c),
                   trans_count := 0\<rparr>;
            st1 = st\<lparr>dma_ch := (dma_ch st)(channel := c')\<rparr>;
            st2 = (if data_size (ctrl c) = DMA_SIZE_32 \<and> \<not> incr_read (ctrl c)
                      \<and> \<not> incr_write (ctrl c) \<and> trans_count c \<noteq> 0
                   then write_channel_register (write_addr c) (load32 (mem st) (read_addr c)) st1
                   else st1)
        in dma_finish channel st2)"

subsection \<open>Reading the log\<close>

text \<open>The operations that one call added to the log.\<close>

definition logged_by :: "machine \<Rightarrow> machine \<Rightarrow> hw_event list" where
  "logged_by st st' = drop (length (hw_log st)) (hw_log st')"

text \<open>The channels an operation starts directly: a configure with the trigger flag, or
  the channels of a start mask.\<close>

fun channel_starts :: "hw_event \<Rightarrow> nat list" where
  "channel_starts (DMA_CHANNEL_CONFIGURE channel trigger) = (if trigger then [channel] else [])"
| "channel_starts (DMA_START_CHANNEL_MASK chan_mask) =
     filter (bit chan_mask) [0..<NUM_DMA_CHANNELS]"
| "channel_starts _ = []"

fun is_sm_enable :: "hw_event \<Rightarrow> bool" where
  "is_sm_enable (PIO_ENABLE_SM_MASK_IN_SYNC pio sm_mask) = True"
| "is_sm_enable _ = False"

fun is_sm_put :: "hw_event \<Rightarrow> bool" where
  "is_sm_put (PIO_SM_PUT pio sm data) = True"
| "is_sm_put _ = False"




subsection \<open>Example states\<close>

text \<open>The machine after reset: memory cleared, every channel disabled and idle, nothing
  claimed or loaded, and \<^verbatim>\<open>memcpy_dma_chan\<close> zero as a global without initialiser.\<close>

definition reset_channel :: dma_channel where
  "reset_channel =
     \<lparr> read_addr = 0, write_addr = 0, trans_count_reload = 0, trans_count = 0,
       ctrl = \<lparr> data_size = DMA_SIZE_8, incr_read = False, incr_write = False,
                treq_sel = DREQ_PIO_TX pio0 0, chain_to = 0, en = False,
                ring_size = 0, ring_sel = False, bswap = False, irq_quiet = False,
                sniff_en = False, high_priority = False \<rparr>,
       busy = False \<rparr>"

definition power_on :: machine where
  "power_on =
     \<lparr> mem = (\<lambda>_. 0), dma_ch = (\<lambda>_. reset_channel), dma_claimed = {},
       used_instruction_space = (\<lambda>_. {}), sm_enabled = (\<lambda>_ _. False),
       txf = (\<lambda>_ _. []), memcpy_dma_chan = 0, hw_log = [] \<rparr>"

definition with_buffer :: "u32 \<Rightarrow> u32 \<Rightarrow> u8 \<Rightarrow> machine \<Rightarrow> machine" where
  "with_buffer base n v st = st\<lparr>mem := (\<lambda>a. if unat (a - base) < unat n then v else mem st a)\<rparr>"

text \<open>A layout in the 264 kB of RAM: the frame at the bottom, the pointer behind it, a
  source buffer further up and the stack cell of \<^verbatim>\<open>val\<close> near the top.\<close>

definition scenario_symbols :: symbols where
  "scenario_symbols = \<lparr> vga_data_array = 0x20000000, address_pointer_cell = 0x20012C00 \<rparr>"

definition scenario_src :: u32 where
  "scenario_src = 0x20020000"

definition scenario_val_addr :: u32 where
  "scenario_val_addr = 0x20041FF0"

definition scenario_state :: machine where
  "scenario_state = with_buffer scenario_src TXCOUNT (ucast WHITE) power_on"


text \<open>A relocatable program of eight instructions stands for each of the three
  generator programs; \<open>armed_example\<close> is the machine after
  \<^verbatim>\<open>VGA_initDisplay(16, 17, 18, 21)\<close> from reset.\<close>

definition example_program :: pio_program where
  "example_program = \<lparr> prog_length = 8, prog_origin = - 1 \<rparr>"

definition armed_example :: machine where
  "armed_example =
     projr (VGA_initDisplay scenario_symbols example_program example_program example_program
              16 17 18 21 power_on)"

text \<open>The machine when \<^verbatim>\<open>main\<close> starts: the C runtime has cleared the frame and set
  \<^verbatim>\<open>address_pointer\<close> to \<^verbatim>\<open>&vga_data_array[0]\<close>.\<close>

definition program_start :: "symbols \<Rightarrow> machine" where
  "program_start L =
     power_on\<lparr>mem := store32 (address_pointer_cell L) (vga_data_array L) (mem power_on)\<rparr>"


subsection \<open>Histories of the running program\<close>

text \<open>
  What can happen to the machine once \<^verbatim>\<open>main\<close> runs: a call of one of the five
  public functions with its arguments (for the two that end in \<^verbatim>\<open>dma_memset\<close>, also
  the address of the cell of \<^verbatim>\<open>val\<close>), or, between two steps, a chain-completion
  event of a channel. A history is a list of such steps; an error ends it.
\<close>

datatype step =
    InitDisplay pio_program pio_program pio_program nat nat nat nat
  | FillScreen u32 u16
  | DrawFrame u32
  | Memset u32 u32 u8 u32
  | Memcpy u32 u32 u32
  | Chain_completion nat

fun run_step :: "symbols \<Rightarrow> step \<Rightarrow> machine \<Rightarrow> error + machine" where
  "run_step L (InitDisplay hp vp rp vsync_pin hsync_pin r_pin pclk_pin) st =
     VGA_initDisplay L hp vp rp vsync_pin hsync_pin r_pin pclk_pin st"
| "run_step L (FillScreen val_addr color) st = Inr (VGA_fillScreen L val_addr color st)"
| "run_step L (DrawFrame src) st = Inr (VGA_drawFrame L src st)"
| "run_step L (Memset val_addr dest val num) st = Inr (dma_memset val_addr dest val num st)"
| "run_step L (Memcpy dest src num) st = Inr (dma_memcpy dest src num st)"
| "run_step L (Chain_completion channel) st = Inr (dma_sequence_complete channel st)"

fun run_steps :: "symbols \<Rightarrow> step list \<Rightarrow> machine \<Rightarrow> error + machine" where
  "run_steps L [] st = Inr st"
| "run_steps L (c # cs) st =
     (case run_step L c st of Inl e \<Rightarrow> Inl e | Inr st1 \<Rightarrow> run_steps L cs st1)"





text \<open>
  The state of the channels between two steps, for a set \<open>S\<close> of scanout channels:
  the shared channel is idle, only channels of \<open>S\<close> are busy, and each channel of
  \<open>S\<close> is claimed, is not the shared channel, and chains to a channel of \<open>S\<close>.
\<close>

definition settled_with :: "nat set \<Rightarrow> machine \<Rightarrow> bool" where
  "settled_with S st =
     (bulk_channel_idle st
      \<and> (\<forall>k. busy (dma_ch st k) \<longrightarrow> k \<in> S)
      \<and> (\<forall>k \<in> S. k \<in> dma_claimed st \<and> k \<noteq> nat (memcpy_dma_chan st)
                  \<and> chain_to (ctrl (dma_ch st k)) \<in> S))"

definition channels_settled :: "machine \<Rightarrow> bool" where
  "channels_settled st = (\<exists>S. settled_with S st)"




section \<open>Properties of the transfer engine\<close>

lemma copy_unit_byte: "copy_unit (Suc 0) rd wr m = m(wr := m rd)"
  by (simp add: copy_unit_def)

lemma dma_finish_self:
  "chain_to (ctrl (dma_ch st ch)) = ch \<Longrightarrow>
   dma_finish ch st = st\<lparr>dma_ch := (dma_ch st)(ch := (dma_ch st ch)\<lparr>busy := False\<rparr>)\<rparr>"
  by (simp add: dma_finish_def Let_def)

lemma of_nat_eq_word_iff:
  "k \<le> unat (n :: u32) \<Longrightarrow> (of_nat k = n) = (k = unat n)"
proof
  assume "of_nat k = n"
  then have "unat (of_nat k :: u32) = unat n" by simp
  moreover assume "k \<le> unat n"
  then have "unat (of_nat k :: u32) = k" by (rule le_unat_uoi)
  ultimately show "k = unat n" by simp
next
  assume "k = unat n"
  then show "of_nat k = n" by simp
qed

lemma bulk_iter:
  fixes st :: machine
  assumes b: "busy (dma_ch st ch)"
    and sz: "data_size (ctrl (dma_ch st ch)) = DMA_SIZE_8"
    and iw: "incr_write (ctrl (dma_ch st ch))"
    and ct: "chain_to (ctrl (dma_ch st ch)) = ch"
    and nz: "trans_count (dma_ch st ch) \<noteq> 0"
    and k: "k \<le> unat (trans_count (dma_ch st ch))"
  shows "mem ((dma_step ch ^^ k) st) =
           byte_transfers (incr_read (ctrl (dma_ch st ch))) (read_addr (dma_ch st ch))
             (write_addr (dma_ch st ch)) (mem st) k
       \<and> dma_ch ((dma_step ch ^^ k) st) ch =
           (dma_ch st ch)\<lparr>read_addr := (if incr_read (ctrl (dma_ch st ch))
                                         then read_addr (dma_ch st ch) + of_nat k
                                         else read_addr (dma_ch st ch)),
                           write_addr := write_addr (dma_ch st ch) + of_nat k,
                           trans_count := trans_count (dma_ch st ch) - of_nat k,
                           busy := (k < unat (trans_count (dma_ch st ch)))\<rparr>"
  using k
proof (induction k)
  case 0
  with b nz show ?case by (simp add: unat_gt_0)
next
  case (Suc k)
  let ?c = "dma_ch st ch"
  let ?s = "(dma_step ch ^^ k) st"
  from Suc have kl: "k < unat (trans_count ?c)" and ih: "k \<le> unat (trans_count ?c)" by simp_all
  note IH = Suc.IH [OF ih]
  have cnt: "trans_count ?c - of_nat k \<noteq> 0"
    using kl of_nat_eq_word_iff [of k "trans_count ?c"] by auto
  have fin: "(trans_count ?c - of_nat k - 1 = 0) = (Suc k = unat (trans_count ?c))"
    using Suc.prems of_nat_eq_word_iff [of "Suc k" "trans_count ?c"] by (auto simp: algebra_simps)
  have less: "(Suc k < unat (trans_count ?c)) = (Suc k \<noteq> unat (trans_count ?c))"
    using kl by auto
  show ?case
  proof (cases "incr_read (ctrl ?c)")
    case True
    with IH kl cnt fin sz iw ct less show ?thesis
      by (simp add: dma_step_def Let_def dma_size_bytes_def copy_unit_byte dma_finish_self
          diff_diff_eq ac_simps fun_eq_iff)
  next
    case False
    with IH kl cnt fin sz iw ct less show ?thesis
      by (simp add: dma_step_def Let_def dma_size_bytes_def copy_unit_byte dma_finish_self
          diff_diff_eq ac_simps fun_eq_iff)
  qed
qed

lemma wait_busy:
  "busy (dma_ch st ch) \<Longrightarrow>
   dma_channel_wait_for_finish_blocking ch st =
   dma_channel_wait_for_finish_blocking ch (dma_step ch st)"
  by (subst dma_channel_wait_for_finish_blocking.simps) simp

lemma wait_idle_id:
  "\<not> busy (dma_ch st ch) \<Longrightarrow> dma_channel_wait_for_finish_blocking ch st = st"
  by (subst dma_channel_wait_for_finish_blocking.simps) simp

lemma wait_funpow:
  "(\<And>j. j < k \<Longrightarrow> busy (dma_ch ((dma_step ch ^^ j) st) ch)) \<Longrightarrow>
   dma_channel_wait_for_finish_blocking ch st =
   dma_channel_wait_for_finish_blocking ch ((dma_step ch ^^ k) st)"
proof (induction k)
  case 0
  show ?case by simp
next
  case (Suc k)
  have "dma_channel_wait_for_finish_blocking ch st =
        dma_channel_wait_for_finish_blocking ch ((dma_step ch ^^ k) st)"
    using Suc.prems by (intro Suc.IH) simp
  also have "\<dots> = dma_channel_wait_for_finish_blocking ch (dma_step ch ((dma_step ch ^^ k) st))"
    using Suc.prems [of k] by (intro wait_busy) simp
  finally show ?case by simp
qed

lemma wait_result_idle: "\<not> busy (dma_ch (dma_channel_wait_for_finish_blocking ch st) ch)"
  by (induction ch st rule: dma_channel_wait_for_finish_blocking.induct)
     (subst dma_channel_wait_for_finish_blocking.simps, simp)

lemma dma_trigger_fields:
  "mem (dma_trigger k st) = mem st"
  "memcpy_dma_chan (dma_trigger k st) = memcpy_dma_chan st"
  "hw_log (dma_trigger k st) = hw_log st"
  by (simp_all add: dma_trigger_def Let_def)

lemma dma_finish_fields:
  "mem (dma_finish k st) = mem st"
  "memcpy_dma_chan (dma_finish k st) = memcpy_dma_chan st"
  "hw_log (dma_finish k st) = hw_log st"
  by (simp_all add: dma_finish_def Let_def dma_trigger_fields)

lemma dma_step_fields:
  "memcpy_dma_chan (dma_step k st) = memcpy_dma_chan st"
  "hw_log (dma_step k st) = hw_log st"
  by (simp_all add: dma_step_def Let_def dma_finish_fields)

lemma wait_fields:
  "memcpy_dma_chan (dma_channel_wait_for_finish_blocking ch st) = memcpy_dma_chan st
   \<and> hw_log (dma_channel_wait_for_finish_blocking ch st) = hw_log st"
  by (induction ch st rule: dma_channel_wait_for_finish_blocking.induct)
     (subst (1 2) dma_channel_wait_for_finish_blocking.simps, simp add: dma_step_fields)

lemma mem_wait_bulk:
  fixes st :: machine
  assumes b: "busy (dma_ch st ch)"
    and sz: "data_size (ctrl (dma_ch st ch)) = DMA_SIZE_8"
    and iw: "incr_write (ctrl (dma_ch st ch))"
    and ct: "chain_to (ctrl (dma_ch st ch)) = ch"
  shows "mem (dma_channel_wait_for_finish_blocking ch st) =
           byte_transfers (incr_read (ctrl (dma_ch st ch))) (read_addr (dma_ch st ch))
             (write_addr (dma_ch st ch)) (mem st) (unat (trans_count (dma_ch st ch)))"
proof (cases "trans_count (dma_ch st ch) = 0")
  case True
  have "dma_channel_wait_for_finish_blocking ch st =
        dma_channel_wait_for_finish_blocking ch (dma_step ch st)"
    using b by (rule wait_busy)
  also have "dma_step ch st = dma_finish ch st"
    using b True by (simp add: dma_step_def Let_def)
  also have "dma_channel_wait_for_finish_blocking ch (dma_finish ch st) = dma_finish ch st"
    by (rule wait_idle_id) (rule dma_finish_idle)
  finally show ?thesis using True by (simp add: dma_finish_fields)
next
  case False
  let ?n = "unat (trans_count (dma_ch st ch))"
  note it = bulk_iter [OF b sz iw ct False]
  have "dma_channel_wait_for_finish_blocking ch st =
        dma_channel_wait_for_finish_blocking ch ((dma_step ch ^^ ?n) st)"
  proof (rule wait_funpow)
    fix j assume "j < ?n"
    then show "busy (dma_ch ((dma_step ch ^^ j) st) ch)"
      using it [of j] by simp
  qed
  also have "\<dots> = (dma_step ch ^^ ?n) st"
    using it [of ?n] by (intro wait_idle_id) simp
  finally show ?thesis using it [of ?n] by simp
qed

lemma byte_transfers_frame:
  "(\<And>i. i < k \<Longrightarrow> a \<noteq> w + of_nat i) \<Longrightarrow> byte_transfers rinc r w m k a = m a"
  by (induction k) simp_all

lemma byte_transfers_fill:
  "m r = v \<Longrightarrow>
   byte_transfers False r w m k a = (if \<exists>i<k. a = w + of_nat i then v else m a)"
proof (induction k arbitrary: a)
  case 0
  show ?case by simp
next
  case (Suc k)
  have r: "byte_transfers False r w m k r = v"
    using Suc.IH [OF Suc.prems, of r] Suc.prems by simp
  show ?case
    using Suc.IH [OF Suc.prems, of a] r by (auto simp: less_Suc_eq)
qed

lemma memset_start_facts:
  assumes "bulk_channel_idle st"
  shows "dma_ch (dma_memset_start va d v n st) (nat (memcpy_dma_chan st)) =
           (dma_ch st (nat (memcpy_dma_chan st)))
             \<lparr>read_addr := va, write_addr := d, trans_count_reload := n, trans_count := n,
              ctrl := (dma_channel_get_default_config (nat (memcpy_dma_chan st)))
                        \<lparr>data_size := DMA_SIZE_8, incr_read := False, incr_write := True\<rparr>,
              busy := True\<rparr>"
    and "mem (dma_memset_start va d v n st) = (mem st)(va := v)"
    and "memcpy_dma_chan (dma_memset_start va d v n st) = memcpy_dma_chan st"
  using assms
  by (simp_all add: bulk_channel_idle_def dma_memset_start_def dma_channel_configure_def
      dma_trigger_def triggered_def Let_def dma_channel_get_default_config_def
      channel_config_set_transfer_data_size_def channel_config_set_read_increment_def
      channel_config_set_write_increment_def)

lemma memcpy_start_facts:
  assumes "bulk_channel_idle st"
  shows "dma_ch (dma_memcpy_start d s n st) (nat (memcpy_dma_chan st)) =
           (dma_ch st (nat (memcpy_dma_chan st)))
             \<lparr>read_addr := s, write_addr := d, trans_count_reload := n, trans_count := n,
              ctrl := (dma_channel_get_default_config (nat (memcpy_dma_chan st)))
                        \<lparr>data_size := DMA_SIZE_8, incr_read := True, incr_write := True\<rparr>,
              busy := True\<rparr>"
    and "mem (dma_memcpy_start d s n st) = mem st"
    and "memcpy_dma_chan (dma_memcpy_start d s n st) = memcpy_dma_chan st"
  using assms
  by (simp_all add: bulk_channel_idle_def dma_memcpy_start_def dma_channel_configure_def
      dma_trigger_def triggered_def Let_def dma_channel_get_default_config_def
      channel_config_set_transfer_data_size_def channel_config_set_read_increment_def
      channel_config_set_write_increment_def)

lemma mem_dma_memset:
  assumes "bulk_channel_idle st"
  shows "mem (dma_memset va d v n st) =
           byte_transfers False va d ((mem st)(va := v)) (unat n)"
  unfolding dma_memset_def
  by (subst mem_wait_bulk)
     (simp_all add: memset_start_facts [OF assms] dma_channel_get_default_config_def)

lemma mem_dma_memcpy:
  assumes "bulk_channel_idle st"
  shows "mem (dma_memcpy d s n st) = byte_transfers True s d (mem st) (unat n)"
  unfolding dma_memcpy_def
  by (subst mem_wait_bulk)
     (simp_all add: memcpy_start_facts [OF assms] dma_channel_get_default_config_def)

lemma dma_memset_idle: "bulk_channel_idle st \<Longrightarrow> bulk_channel_idle (dma_memset va d v n st)"
  by (simp add: bulk_channel_idle_def dma_memset_def wait_fields wait_result_idle
      memset_start_facts(3) [unfolded bulk_channel_idle_def])

lemma dma_memcpy_idle: "bulk_channel_idle st \<Longrightarrow> bulk_channel_idle (dma_memcpy d s n st)"
  by (simp add: bulk_channel_idle_def dma_memcpy_def wait_fields wait_result_idle
      memcpy_start_facts(3) [unfolded bulk_channel_idle_def])

lemma addr_inj:
  fixes w n :: u32
  assumes "i \<le> unat n" "j \<le> unat n"
  shows "(w + of_nat i = w + of_nat j) = (i = j)"
proof
  assume "w + of_nat i = w + of_nat j"
  then have "(of_nat i :: u32) = of_nat j" by simp
  then have "unat (of_nat i :: u32) = unat (of_nat j :: u32)" by simp
  then show "i = j" using assms by (simp add: le_unat_uoi)
qed simp

lemma byte_transfers_copy:
  fixes n :: u32
  assumes H: "\<And>k. k < K \<Longrightarrow> byte_transfers True r w m k (r + of_nat k) = m (r + of_nat k)"
    and K: "K \<le> unat n" and i: "i < K"
  shows "byte_transfers True r w m K (w + of_nat i) = m (r + of_nat i)"
  using H K i
proof (induction K)
  case 0
  then show ?case by simp
next
  case (Suc K)
  show ?case
  proof (cases "i = K")
    case True
    then show ?thesis using Suc.prems(1) [of K] by simp
  next
    case False
    with Suc.prems have iK: "i < K" by simp
    have ne: "w + of_nat i \<noteq> w + of_nat K"
      using addr_inj [of i n K w] iK Suc.prems(2) by simp
    have "byte_transfers True r w m K (w + of_nat i) = m (r + of_nat i)"
      using Suc.prems iK by (intro Suc.IH) simp_all
    with ne show ?thesis by simp
  qed
qed

lemma memcpy_progress:
  assumes idle: "bulk_channel_idle st" and k: "k \<le> unat n"
  shows "mem ((dma_step (nat (memcpy_dma_chan st)) ^^ k) (dma_memcpy_start d s n st)) =
         byte_transfers True s d (mem st) k"
proof (cases "n = 0")
  case True
  with k show ?thesis by (simp add: memcpy_start_facts [OF idle])
next
  case False
  let ?ch = "nat (memcpy_dma_chan st)"
  let ?s1 = "dma_memcpy_start d s n st"
  have "mem ((dma_step ?ch ^^ k) ?s1) =
        byte_transfers (incr_read (ctrl (dma_ch ?s1 ?ch))) (read_addr (dma_ch ?s1 ?ch))
          (write_addr (dma_ch ?s1 ?ch)) (mem ?s1) k"
    using False k
    by (intro bulk_iter [THEN conjunct1])
       (simp_all add: memcpy_start_facts [OF idle] dma_channel_get_default_config_def)
  then show ?thesis
    by (simp add: memcpy_start_facts [OF idle])
qed

lemma src_held_constant_disjoint:
  assumes idle: "bulk_channel_idle st"
    and dis: "\<And>i j. i < unat n \<Longrightarrow> j < unat n \<Longrightarrow> s + of_nat j \<noteq> d + of_nat i"
  shows "src_held_constant d s n st"
  unfolding src_held_constant_def
proof (intro allI impI)
  fix k j assume k: "k \<le> unat n" and j: "j < unat n"
  have "byte_transfers True s d (mem st) k (s + of_nat j) = mem st (s + of_nat j)"
    using dis j k by (intro byte_transfers_frame) simp
  then show "mem ((dma_step (nat (memcpy_dma_chan st)) ^^ k) (dma_memcpy_start d s n st))
               (s + of_nat j) = mem st (s + of_nat j)"
    by (simp add: memcpy_progress [OF idle k])
qed

lemma packed_value:
  "unat (ucast ((ucast (c :: u16) :: u32) OR push_bit 3 (ucast c :: u32)) :: u8)
   = (unat c OR push_bit 3 (unat c)) mod 256"
proof -
  have c: "unat c < 2 ^ 16" using unsigned_less [of c] by simp
  then have c32: "take_bit 32 (unat c) = unat c"
    by (intro take_bit_nat_eq_self) simp
  have "push_bit 3 (unat c) < 2 ^ 32"
    using c by (simp add: push_bit_eq_mult)
  then have p32: "take_bit 32 (push_bit 3 (unat c)) = push_bit 3 (unat c)"
    by (intro take_bit_nat_eq_self)
  have u: "unat (ucast c :: u32) = unat c"
    using c32 by (simp add: unsigned_ucast_eq)
  have p: "unat (push_bit 3 (ucast c :: u32) :: u32) = push_bit 3 (unat c)"
    using p32 by (simp add: unsigned_push_bit_eq u)
  have "unat (ucast ((ucast c :: u32) OR push_bit 3 (ucast c :: u32)) :: u8)
        = take_bit 8 (unat ((ucast c :: u32) OR push_bit 3 (ucast c :: u32)))"
    by (simp add: unsigned_ucast_eq)
  also have "\<dots> = take_bit 8 (unat c OR push_bit 3 (unat c))"
    by (simp only: unsigned_or_eq u p)
  finally show ?thesis
    by (simp add: take_bit_eq_mod)
qed

lemma packed_small: "(x :: nat) < 8 \<Longrightarrow> (x OR push_bit 3 x) < 64"
proof -
  assume "x < 8"
  then have "x = 0 \<or> x = 1 \<or> x = 2 \<or> x = 3 \<or> x = 4 \<or> x = 5 \<or> x = 6 \<or> x = 7" by arith
  then show ?thesis by (auto simp: push_bit_eq_mult)
qed

lemma packed_large: "(32 :: nat) \<le> x \<Longrightarrow> 256 \<le> (x OR push_bit 3 x)"
proof -
  assume x: "32 \<le> x"
  have "push_bit 3 x \<le> x OR push_bit 3 x"
    by (metis or.commute or_greater_eq of_nat_0_le_iff nat_int_comparison(3) of_nat_or_eq)
  with x show ?thesis by (simp add: push_bit_eq_mult)
qed

lemma power_on_idle: "bulk_channel_idle power_on"
  by (simp add: bulk_channel_idle_def power_on_def reset_channel_def)

lemma range_iff:
  fixes base n a :: u32
  shows "(\<exists>i < unat n. a = base + of_nat i) = (unat (a - base) < unat n)"
proof
  assume "\<exists>i < unat n. a = base + of_nat i"
  then obtain i where i: "i < unat n" and a: "a = base + of_nat i" by blast
  have "unat (of_nat i :: u32) = i" using i by (intro le_unat_uoi [of i n]) simp
  with i a show "unat (a - base) < unat n" by simp
next
  assume "unat (a - base) < unat n"
  moreover have "a = base + of_nat (unat (a - base))" by simp
  ultimately show "\<exists>i < unat n. a = base + of_nat i" by blast
qed

lemma mem_memset_closed:
  assumes "bulk_channel_idle st"
  shows "mem (dma_memset va d v n st) a =
           (if unat (a - d) < unat n \<or> a = va then v else mem st a)"
  by (simp only: mem_dma_memset [OF assms] byte_transfers_fill [of "(mem st)(va := v)" va v, simplified]
      range_iff) simp

lemma ranges_apart:
  fixes s d n :: u32
  assumes sd: "unat n \<le> unat (s - d)" and ds: "unat n \<le> unat (d - s)"
    and i: "i < unat n" and j: "j < unat n"
  shows "s + of_nat j \<noteq> d + of_nat i"
proof
  assume eq: "s + of_nat j = d + of_nat i"
  show False
  proof (cases "j \<le> i")
    case True
    from eq have "s - d = of_nat i - of_nat j" by (simp add: algebra_simps)
    also have "\<dots> = of_nat (i - j)" using True by simp
    finally have "unat (s - d) = unat (of_nat (i - j) :: u32)" by simp
    also have "\<dots> = i - j" using i by (intro le_unat_uoi [of _ n]) simp
    finally show False using sd i by simp
  next
    case False
    from eq have "d - s = of_nat j - of_nat i" by (simp add: algebra_simps)
    also have "\<dots> = of_nat (j - i)" using False by simp
    finally have "unat (d - s) = unat (of_nat (j - i) :: u32)" by simp
    also have "\<dots> = j - i" using j by (intro le_unat_uoi [of _ n]) simp
    finally show False using ds j by simp
  qed
qed

lemma mem_memcpy_range:
  assumes idle: "bulk_channel_idle st" and const: "src_held_constant d s n st"
    and i: "i < unat n"
  shows "mem (dma_memcpy d s n st) (d + of_nat i) = mem st (s + of_nat i)"
proof -
  have "byte_transfers True s d (mem st) (unat n) (d + of_nat i) = mem st (s + of_nat i)"
  proof (rule byte_transfers_copy [where n = n])
    fix k assume k: "k < unat n"
    then have "mem ((dma_step (nat (memcpy_dma_chan st)) ^^ k) (dma_memcpy_start d s n st))
                 (s + of_nat k) = mem st (s + of_nat k)"
      using const by (simp add: src_held_constant_def)
    then show "byte_transfers True s d (mem st) k (s + of_nat k) = mem st (s + of_nat k)"
      using k by (simp add: memcpy_progress [OF idle])
  qed (use i in simp_all)
  then show ?thesis
    by (simp add: mem_dma_memcpy [OF idle])
qed


lemma mem_fillScreen:
  assumes "bulk_channel_idle st"
  shows "mem (VGA_fillScreen L va c st) a =
           (if unat (a - vga_data_array L) < unat TXCOUNT \<or> a = va
            then ucast ((ucast c :: u32) OR push_bit 3 (ucast c :: u32)) else mem st a)"
  by (simp add: VGA_fillScreen_def mem_memset_closed [OF assms])

lemma fillScreen_idle: "bulk_channel_idle st \<Longrightarrow> bulk_channel_idle (VGA_fillScreen L va c st)"
  by (simp add: VGA_fillScreen_def dma_memset_idle)

lemma frame_index:
  "i < unat TXCOUNT \<Longrightarrow> unat ((base :: u32) + of_nat i - base) < unat TXCOUNT"
  using range_iff [of TXCOUNT "base + of_nat i" base] by blast

lemma drawFrame_idle: "bulk_channel_idle st \<Longrightarrow> bulk_channel_idle (VGA_drawFrame L src st)"
  by (simp add: VGA_drawFrame_def dma_memcpy_idle)

lemma red_pattern: "(ucast ((ucast RED :: u32) OR push_bit 3 (ucast RED :: u32)) :: u8) = 0x24"
  by (simp add: RED_def)

lemma white_byte: "(ucast WHITE :: u8) = 7"
  by (simp add: WHITE_def)

lemma scenario_idle: "bulk_channel_idle scenario_state"
  by (simp add: scenario_state_def with_buffer_def bulk_channel_idle_def power_on_def
      reset_channel_def)

lemma scenario_src_white:
  "buffer_all scenario_src TXCOUNT (ucast WHITE)
     (VGA_fillScreen scenario_symbols scenario_val_addr RED scenario_state)"
  unfolding buffer_all_def
proof (intro allI impI)
  fix i assume i: "i < unat TXCOUNT"
  have in_src: "unat (scenario_src + of_nat i - scenario_src) < unat TXCOUNT"
    using i by (rule frame_index)
  have "scenario_src + of_nat i \<noteq> vga_data_array scenario_symbols + of_nat k"
    if "k < unat TXCOUNT" for k
    using that i
    by (intro ranges_apart [where n = TXCOUNT])
       (simp_all add: scenario_src_def scenario_symbols_def TXCOUNT_def)
  then have out_fb: "\<not> unat (scenario_src + of_nat i - vga_data_array scenario_symbols) < unat TXCOUNT"
    using range_iff [of TXCOUNT "scenario_src + of_nat i" "vga_data_array scenario_symbols"]
    by blast
  have "scenario_src + of_nat i \<noteq> scenario_val_addr + of_nat 0"
    using i
    by (intro ranges_apart [where n = TXCOUNT])
       (simp_all add: scenario_src_def scenario_val_addr_def TXCOUNT_def)
  then have not_va: "scenario_src + of_nat i \<noteq> scenario_val_addr" by simp
  show "mem (VGA_fillScreen scenario_symbols scenario_val_addr RED scenario_state)
          (scenario_src + of_nat i) = ucast WHITE"
    using in_src out_fb not_va
    by (simp only: mem_fillScreen [OF scenario_idle])
       (simp add: scenario_state_def with_buffer_def)
qed

section \<open>Properties of the initialisation\<close>

lemma first_unclaimed_Some:
  "first_unclaimed S = Some k \<Longrightarrow> k \<notin> S \<and> k < NUM_DMA_CHANNELS"
  by (auto simp: first_unclaimed_def find_Some_iff)

lemma pio_add_program_Inr:
  "pio_add_program pio p st = Inr (off, st1) \<Longrightarrow>
   st1 = st\<lparr>used_instruction_space := (used_instruction_space st)
                (pio := used_instruction_space st pio \<union> set (program_slots (prog_length p) off)),
             hw_log := hw_log st @ [PIO_ADD_PROGRAM pio off]\<rparr>"
  by (auto simp: pio_add_program_def split: option.splits)

lemma dma_claim_Inr:
  "dma_claim_unused_channel True st = Inr (c, st1) \<Longrightarrow>
   \<exists>k. first_unclaimed (dma_claimed st) = Some k \<and> c = int k
     \<and> st1 = st\<lparr>dma_claimed := insert k (dma_claimed st),
                 hw_log := hw_log st @ [DMA_CLAIM_UNUSED_CHANNEL (int k)]\<rparr>"
  by (auto simp: dma_claim_unused_channel_def split: option.splits)

lemma pio_sm_put_Inr:
  "pio_sm_put_blocking pio sm d st = Inr st1 \<Longrightarrow>
   st1 = st\<lparr>txf := (txf st)(pio := (txf st pio)(sm := txf st pio sm @ [d])),
             hw_log := hw_log st @ [PIO_SM_PUT pio sm d]\<rparr>"
  by (auto simp: pio_sm_put_blocking_def split: if_splits)

lemma bit_one_shifted:
  "A < 32 \<Longrightarrow> bit (push_bit A (1 :: u32)) k = (k = A)"
  by (auto simp: bit_exp_iff)

lemma sm_mask_value:
  "(push_bit 0 1 OR push_bit 1 1 OR push_bit 3 1 OR push_bit 2 1 :: u32) = 15"
  by simp

lemma bit_15: "bit (15 :: u32) sm = (sm < 4)"
proof -
  have m: "(15 :: u32) = mask 4" by (simp add: mask_eq_exp_minus_1)
  show ?thesis by (subst m, subst bit_mask_iff) auto
qed

lemma VGA_initDisplay_steps:
  assumes "VGA_initDisplay L hp vp rp vsync_pin hsync_pin r_pin pclk_pin st = Inr st'"
  obtains ho vo ro A B M st3 st9 st12 st15 where
    "st3 = st\<lparr>used_instruction_space := used_instruction_space st3,
               hw_log := hw_log st @ [PIO_ADD_PROGRAM pio1 ho, PIO_ADD_PROGRAM pio1 vo,
                                      PIO_ADD_PROGRAM pio1 ro]\<rparr>"
    "first_unclaimed (dma_claimed st) = Some A"
    "first_unclaimed (insert A (dma_claimed st)) = Some B"
    "first_unclaimed (insert B (insert A (dma_claimed st))) = Some M"
    "st9 = st3\<lparr>dma_claimed := insert M (insert B (insert A (dma_claimed st))),
                memcpy_dma_chan := int M,
                hw_log := hw_log st3 @
                  [SM_PROGRAM_INIT pio1 0 ho hsync_pin, SM_PROGRAM_INIT pio1 1 vo vsync_pin,
                   SM_PROGRAM_INIT pio1 3 ro r_pin,
                   DMA_CLAIM_UNUSED_CHANNEL (int A), DMA_CLAIM_UNUSED_CHANNEL (int B),
                   DMA_CLAIM_UNUSED_CHANNEL (int M)]\<rparr>"
    "st12 = dma_channel_configure B (scanout_config_B A B) (dma_ch_read_addr_reg A)
              (address_pointer_cell L) 1 False
              (dma_channel_configure A (scanout_config_A A B) (pio_txf_addr pio1 3)
                 (vga_data_array L) TXCOUNT False st9)"
    "st15 = st12\<lparr>txf := (txf st12)(pio1 := (txf st12 pio1)
                       (0 := txf st12 pio1 0 @ [H_ACTIVE], 1 := txf st12 pio1 1 @ [239],
                        3 := txf st12 pio1 3 @ [RGB_ACTIVE])),
                  hw_log := hw_log st12 @ [PIO_SM_PUT pio1 0 H_ACTIVE, PIO_SM_PUT pio1 1 239,
                                           PIO_SM_PUT pio1 3 RGB_ACTIVE]\<rparr>"
    "st' = dma_start_channel_mask (push_bit A 1) (pio_enable_sm_mask_in_sync pio1 15 st15)"
proof -
  from assms obtain ho st1 vo st2 ro st3 a st7 b st8 m st9 st13 st14 st15 where
    p1: "pio_add_program pio1 hp st = Inr (ho, st1)" and
    p2: "pio_add_program pio1 vp st1 = Inr (vo, st2)" and
    p3: "pio_add_program pio1 rp st2 = Inr (ro, st3)" and
    c1: "dma_claim_unused_channel True
           (rgb_program_init pio1 3 ro r_pin (vsync_program_init pio1 1 vo vsync_pin
              (hsync_program_init pio1 0 ho hsync_pin st3))) = Inr (a, st7)" and
    c2: "dma_claim_unused_channel True st7 = Inr (b, st8)" and
    c3: "dma_claim_unused_channel True st8 = Inr (m, st9)" and
    f1: "pio_sm_put_blocking pio1 0 H_ACTIVE
           (dma_channel_configure (nat b)
              (channel_config_set_chain_to (nat a)
                (channel_config_set_write_increment False
                  (channel_config_set_read_increment False
                    (channel_config_set_transfer_data_size DMA_SIZE_32
                      (dma_channel_get_default_config (nat b))))))
              (dma_ch_read_addr_reg (nat a)) (address_pointer_cell L) 1 False
              (dma_channel_configure (nat a)
                 (channel_config_set_chain_to (nat b)
                   (channel_config_set_dreq DREQ_PIO1_TX2
                     (channel_config_set_write_increment False
                       (channel_config_set_read_increment True
                         (channel_config_set_transfer_data_size DMA_SIZE_8
                           (dma_channel_get_default_config (nat a)))))))
                 (pio_txf_addr pio1 3) (vga_data_array L) TXCOUNT False
                 (st9\<lparr>memcpy_dma_chan := m\<rparr>))) = Inr st13" and
    f2: "pio_sm_put_blocking pio1 1 239 st13 = Inr st14" and
    f3: "pio_sm_put_blocking pio1 3 RGB_ACTIVE st14 = Inr st15" and
    fin: "st' = dma_start_channel_mask (push_bit (nat a) 1)
                  (pio_enable_sm_mask_in_sync pio1 15 st15)"
    by (auto simp: VGA_initDisplay_def Let_def split: sum.splits prod.splits)
  note s1 = pio_add_program_Inr [OF p1] and s2 = pio_add_program_Inr [OF p2]
    and s3 = pio_add_program_Inr [OF p3]
  from dma_claim_Inr [OF c1] obtain A where
    A: "first_unclaimed (dma_claimed st3) = Some A" "a = int A" and
    s7: "st7 = (rgb_program_init pio1 3 ro r_pin (vsync_program_init pio1 1 vo vsync_pin
              (hsync_program_init pio1 0 ho hsync_pin st3)))
            \<lparr>dma_claimed := insert A (dma_claimed st3),
             hw_log := hw_log st3 @ [SM_PROGRAM_INIT pio1 0 ho hsync_pin,
                SM_PROGRAM_INIT pio1 1 vo vsync_pin, SM_PROGRAM_INIT pio1 3 ro r_pin,
                DMA_CLAIM_UNUSED_CHANNEL (int A)]\<rparr>"
    by (auto simp: hsync_program_init_def vsync_program_init_def rgb_program_init_def)
  from dma_claim_Inr [OF c2] obtain B where
    B: "first_unclaimed (dma_claimed st7) = Some B" "b = int B" and
    s8: "st8 = st7\<lparr>dma_claimed := insert B (dma_claimed st7),
                   hw_log := hw_log st7 @ [DMA_CLAIM_UNUSED_CHANNEL (int B)]\<rparr>"
    by auto
  from dma_claim_Inr [OF c3] obtain M where
    M: "first_unclaimed (dma_claimed st8) = Some M" "m = int M" and
    s9: "st9 = st8\<lparr>dma_claimed := insert M (dma_claimed st8),
                   hw_log := hw_log st8 @ [DMA_CLAIM_UNUSED_CHANNEL (int M)]\<rparr>"
    by auto
  have cl3: "dma_claimed st3 = dma_claimed st"
    by (simp add: s3 s2 s1)
  have cl7: "dma_claimed st7 = insert A (dma_claimed st)"
    by (simp add: s7 cl3)
  have cl8: "dma_claimed st8 = insert B (insert A (dma_claimed st))"
    by (simp add: s8 cl7)
  let ?st12 = "dma_channel_configure B (scanout_config_B A B) (dma_ch_read_addr_reg A)
              (address_pointer_cell L) 1 False
              (dma_channel_configure A (scanout_config_A A B) (pio_txf_addr pio1 3)
                 (vga_data_array L) TXCOUNT False (st9\<lparr>memcpy_dma_chan := int M\<rparr>))"
  have f1': "pio_sm_put_blocking pio1 0 H_ACTIVE ?st12 = Inr st13"
    using f1 by (simp add: A B M scanout_config_A_def scanout_config_B_def
        channel_config_set_transfer_data_size_def channel_config_set_read_increment_def
        channel_config_set_write_increment_def channel_config_set_dreq_def
        channel_config_set_chain_to_def)
  note s13 = pio_sm_put_Inr [OF f1'] and s14 = pio_sm_put_Inr [OF f2]
    and s15 = pio_sm_put_Inr [OF f3]
  show ?thesis
  proof (rule that [of st3 ho vo ro A B M "st9\<lparr>memcpy_dma_chan := int M\<rparr>" ?st12 st15])
    show "st3 = st\<lparr>used_instruction_space := used_instruction_space st3,
               hw_log := hw_log st @ [PIO_ADD_PROGRAM pio1 ho, PIO_ADD_PROGRAM pio1 vo,
                                      PIO_ADD_PROGRAM pio1 ro]\<rparr>"
      by (simp add: s3 s2 s1)
    show "first_unclaimed (dma_claimed st) = Some A" using A cl3 by simp
    show "first_unclaimed (insert A (dma_claimed st)) = Some B" using B cl7 by simp
    show "first_unclaimed (insert B (insert A (dma_claimed st))) = Some M" using M cl8 by simp
    show "st9\<lparr>memcpy_dma_chan := int M\<rparr> =
            st3\<lparr>dma_claimed := insert M (insert B (insert A (dma_claimed st))),
                memcpy_dma_chan := int M,
                hw_log := hw_log st3 @
                  [SM_PROGRAM_INIT pio1 0 ho hsync_pin, SM_PROGRAM_INIT pio1 1 vo vsync_pin,
                   SM_PROGRAM_INIT pio1 3 ro r_pin,
                   DMA_CLAIM_UNUSED_CHANNEL (int A), DMA_CLAIM_UNUSED_CHANNEL (int B),
                   DMA_CLAIM_UNUSED_CHANNEL (int M)]\<rparr>"
      by (simp add: s9 s8 s7 cl3 hsync_program_init_def vsync_program_init_def
          rgb_program_init_def)
    show "?st12 = ?st12" ..
    show "st15 = ?st12\<lparr>txf := (txf ?st12)(pio1 := (txf ?st12 pio1)
                       (0 := txf ?st12 pio1 0 @ [H_ACTIVE], 1 := txf ?st12 pio1 1 @ [239],
                        3 := txf ?st12 pio1 3 @ [RGB_ACTIVE])),
                  hw_log := hw_log ?st12 @ [PIO_SM_PUT pio1 0 H_ACTIVE, PIO_SM_PUT pio1 1 239,
                                           PIO_SM_PUT pio1 3 RGB_ACTIVE]\<rparr>"
      by (simp add: s15 s14 s13)
    show "st' = dma_start_channel_mask (push_bit A 1) (pio_enable_sm_mask_in_sync pio1 15 st15)"
      using fin A by simp
  qed
qed

lemma VGA_initDisplay_Inr:
  assumes "VGA_initDisplay L hp vp rp vsync_pin hsync_pin r_pin pclk_pin st = Inr st'"
  shows "\<exists>ho vo ro A B M.
      first_unclaimed (dma_claimed st) = Some A
    \<and> first_unclaimed (insert A (dma_claimed st)) = Some B
    \<and> first_unclaimed (insert B (insert A (dma_claimed st))) = Some M
    \<and> hw_log st' = hw_log st @
        [PIO_ADD_PROGRAM pio1 ho, PIO_ADD_PROGRAM pio1 vo, PIO_ADD_PROGRAM pio1 ro,
         SM_PROGRAM_INIT pio1 0 ho hsync_pin, SM_PROGRAM_INIT pio1 1 vo vsync_pin,
         SM_PROGRAM_INIT pio1 3 ro r_pin,
         DMA_CLAIM_UNUSED_CHANNEL (int A), DMA_CLAIM_UNUSED_CHANNEL (int B),
         DMA_CLAIM_UNUSED_CHANNEL (int M),
         DMA_CHANNEL_CONFIGURE A False, DMA_CHANNEL_CONFIGURE B False,
         PIO_SM_PUT pio1 0 H_ACTIVE, PIO_SM_PUT pio1 1 239, PIO_SM_PUT pio1 3 RGB_ACTIVE,
         PIO_ENABLE_SM_MASK_IN_SYNC pio1 15, DMA_START_CHANNEL_MASK (push_bit A 1)]
    \<and> mem st' = mem st
    \<and> memcpy_dma_chan st' = int M
    \<and> dma_ch st' A = triggered ((dma_ch st A)
          \<lparr>read_addr := vga_data_array L, write_addr := pio_txf_addr pio1 3,
           trans_count_reload := TXCOUNT, ctrl := scanout_config_A A B\<rparr>)
    \<and> dma_ch st' B = (dma_ch st B)
          \<lparr>read_addr := address_pointer_cell L, write_addr := dma_ch_read_addr_reg A,
           trans_count_reload := 1, ctrl := scanout_config_B A B\<rparr>
    \<and> (\<forall>k. k \<noteq> A \<longrightarrow> k \<noteq> B \<longrightarrow> dma_ch st' k = dma_ch st k)
    \<and> txf st' pio1 = (txf st pio1)(0 := txf st pio1 0 @ [H_ACTIVE], 1 := txf st pio1 1 @ [239],
                                     3 := txf st pio1 3 @ [RGB_ACTIVE])
    \<and> (\<forall>sm. sm_enabled st' pio1 sm = (sm < 4 \<or> sm_enabled st pio1 sm))
    \<and> dma_claimed st' = insert M (insert B (insert A (dma_claimed st)))"
proof -
  from assms obtain ho vo ro A B M st3 st9 st12 st15 where
    s3: "st3 = st\<lparr>used_instruction_space := used_instruction_space st3,
               hw_log := hw_log st @ [PIO_ADD_PROGRAM pio1 ho, PIO_ADD_PROGRAM pio1 vo,
                                      PIO_ADD_PROGRAM pio1 ro]\<rparr>" and
    A: "first_unclaimed (dma_claimed st) = Some A" and
    B: "first_unclaimed (insert A (dma_claimed st)) = Some B" and
    M: "first_unclaimed (insert B (insert A (dma_claimed st))) = Some M" and
    s9: "st9 = st3\<lparr>dma_claimed := insert M (insert B (insert A (dma_claimed st))),
                memcpy_dma_chan := int M,
                hw_log := hw_log st3 @
                  [SM_PROGRAM_INIT pio1 0 ho hsync_pin, SM_PROGRAM_INIT pio1 1 vo vsync_pin,
                   SM_PROGRAM_INIT pio1 3 ro r_pin,
                   DMA_CLAIM_UNUSED_CHANNEL (int A), DMA_CLAIM_UNUSED_CHANNEL (int B),
                   DMA_CLAIM_UNUSED_CHANNEL (int M)]\<rparr>" and
    s12: "st12 = dma_channel_configure B (scanout_config_B A B) (dma_ch_read_addr_reg A)
              (address_pointer_cell L) 1 False
              (dma_channel_configure A (scanout_config_A A B) (pio_txf_addr pio1 3)
                 (vga_data_array L) TXCOUNT False st9)" and
    s15: "st15 = st12\<lparr>txf := (txf st12)(pio1 := (txf st12 pio1)
                       (0 := txf st12 pio1 0 @ [H_ACTIVE], 1 := txf st12 pio1 1 @ [239],
                        3 := txf st12 pio1 3 @ [RGB_ACTIVE])),
                  hw_log := hw_log st12 @ [PIO_SM_PUT pio1 0 H_ACTIVE, PIO_SM_PUT pio1 1 239,
                                           PIO_SM_PUT pio1 3 RGB_ACTIVE]\<rparr>" and
    fin: "st' = dma_start_channel_mask (push_bit A 1) (pio_enable_sm_mask_in_sync pio1 15 st15)"
    by (rule VGA_initDisplay_steps)
  have A12: "A \<notin> dma_claimed st" "A < 12"
    using first_unclaimed_Some [OF A] by (simp_all add: NUM_DMA_CHANNELS_def)
  have B12: "B \<noteq> A" "B < 12"
    using first_unclaimed_Some [OF B] by (auto simp: NUM_DMA_CHANNELS_def)
  have log3: "hw_log st3 = hw_log st @ [PIO_ADD_PROGRAM pio1 ho, PIO_ADD_PROGRAM pio1 vo,
                                      PIO_ADD_PROGRAM pio1 ro]"
    by (subst s3) simp
  have log12: "hw_log st12 = hw_log st3 @
                  [SM_PROGRAM_INIT pio1 0 ho hsync_pin, SM_PROGRAM_INIT pio1 1 vo vsync_pin,
                   SM_PROGRAM_INIT pio1 3 ro r_pin,
                   DMA_CLAIM_UNUSED_CHANNEL (int A), DMA_CLAIM_UNUSED_CHANNEL (int B),
                   DMA_CLAIM_UNUSED_CHANNEL (int M),
                   DMA_CHANNEL_CONFIGURE A False, DMA_CHANNEL_CONFIGURE B False]"
    by (simp add: s12 dma_channel_configure_def Let_def, subst s9, simp)
  have log: "hw_log st' = hw_log st @
        [PIO_ADD_PROGRAM pio1 ho, PIO_ADD_PROGRAM pio1 vo, PIO_ADD_PROGRAM pio1 ro,
         SM_PROGRAM_INIT pio1 0 ho hsync_pin, SM_PROGRAM_INIT pio1 1 vo vsync_pin,
         SM_PROGRAM_INIT pio1 3 ro r_pin,
         DMA_CLAIM_UNUSED_CHANNEL (int A), DMA_CLAIM_UNUSED_CHANNEL (int B),
         DMA_CLAIM_UNUSED_CHANNEL (int M),
         DMA_CHANNEL_CONFIGURE A False, DMA_CHANNEL_CONFIGURE B False,
         PIO_SM_PUT pio1 0 H_ACTIVE, PIO_SM_PUT pio1 1 239, PIO_SM_PUT pio1 3 RGB_ACTIVE,
         PIO_ENABLE_SM_MASK_IN_SYNC pio1 15, DMA_START_CHANNEL_MASK (push_bit A 1)]"
    by (simp add: fin dma_start_channel_mask_def pio_enable_sm_mask_in_sync_def,
        subst s15, simp add: log12 log3)
  have mem3: "mem st3 = mem st" by (subst s3) simp
  have mem9: "mem st9 = mem st" by (subst s9) (simp add: mem3)
  have mem12: "mem st12 = mem st" by (simp add: s12 dma_channel_configure_def Let_def mem9)
  have mem': "mem st' = mem st"
    by (simp add: fin dma_start_channel_mask_def pio_enable_sm_mask_in_sync_def, subst s15,
        simp add: mem12)
  have chan9: "memcpy_dma_chan st9 = int M" by (subst s9) simp
  have chan12: "memcpy_dma_chan st12 = int M"
    by (simp add: s12 dma_channel_configure_def Let_def chan9)
  have chan': "memcpy_dma_chan st' = int M"
    by (simp add: fin dma_start_channel_mask_def pio_enable_sm_mask_in_sync_def, subst s15,
        simp add: chan12)
  have dma3: "dma_ch st3 = dma_ch st" by (subst s3) simp
  have dma9: "dma_ch st9 = dma_ch st" by (subst s9) (simp add: dma3)
  have dma12: "dma_ch st12 = (dma_ch st)
        (A := (dma_ch st A)\<lparr>read_addr := vga_data_array L, write_addr := pio_txf_addr pio1 3,
                 trans_count_reload := TXCOUNT, ctrl := scanout_config_A A B\<rparr>,
         B := (dma_ch st B)\<lparr>read_addr := address_pointer_cell L,
                 write_addr := dma_ch_read_addr_reg A,
                 trans_count_reload := 1, ctrl := scanout_config_B A B\<rparr>)"
    using B12 by (simp add: s12 dma_channel_configure_def Let_def dma9)
  have dma15: "dma_ch st15 = dma_ch st12" by (subst s15) simp
  have dma': "dma_ch st' = (\<lambda>k. if k = A then triggered (dma_ch st12 k) else dma_ch st12 k)"
    using A12
    by (auto simp: fin dma_start_channel_mask_def pio_enable_sm_mask_in_sync_def dma15
        NUM_DMA_CHANNELS_def bit_exp_iff fun_eq_iff)
  have txf3: "txf st3 = txf st" by (subst s3) simp
  have txf9: "txf st9 = txf st" by (subst s9) (simp add: txf3)
  have txf12: "txf st12 = txf st" by (simp add: s12 dma_channel_configure_def Let_def txf9)
  have txf': "txf st' pio1 = (txf st pio1)(0 := txf st pio1 0 @ [H_ACTIVE],
                 1 := txf st pio1 1 @ [239], 3 := txf st pio1 3 @ [RGB_ACTIVE])"
    by (simp add: fin dma_start_channel_mask_def pio_enable_sm_mask_in_sync_def, subst s15,
        simp add: txf12)
  have en3: "sm_enabled st3 = sm_enabled st" by (subst s3) simp
  have en9: "sm_enabled st9 = sm_enabled st" by (subst s9) (simp add: en3)
  have en12: "sm_enabled st12 = sm_enabled st"
    by (simp add: s12 dma_channel_configure_def Let_def en9)
  have en15: "sm_enabled st15 = sm_enabled st" by (subst s15) (simp add: en12)
  have en': "sm_enabled st' pio1 sm = (sm < 4 \<or> sm_enabled st pio1 sm)" for sm
  proof (cases "sm < 4")
    case True
    then have "bit (15 :: u32) sm" by (simp only: bit_15)
    with True show ?thesis
      by (simp add: fin dma_start_channel_mask_def pio_enable_sm_mask_in_sync_def en15)
  next
    case False
    then show ?thesis
      by (simp add: fin dma_start_channel_mask_def pio_enable_sm_mask_in_sync_def en15)
  qed
  have cl9: "dma_claimed st9 = insert M (insert B (insert A (dma_claimed st)))"
    by (subst s9) simp
  have cl12: "dma_claimed st12 = insert M (insert B (insert A (dma_claimed st)))"
    by (simp add: s12 dma_channel_configure_def Let_def cl9)
  have cl': "dma_claimed st' = insert M (insert B (insert A (dma_claimed st)))"
    by (simp add: fin dma_start_channel_mask_def pio_enable_sm_mask_in_sync_def, subst s15,
        simp add: cl12)
  have dA: "dma_ch st' A = triggered ((dma_ch st A)
          \<lparr>read_addr := vga_data_array L, write_addr := pio_txf_addr pio1 3,
           trans_count_reload := TXCOUNT, ctrl := scanout_config_A A B\<rparr>)"
    using B12 by (simp add: dma' dma12)
  have dB: "dma_ch st' B = (dma_ch st B)
          \<lparr>read_addr := address_pointer_cell L, write_addr := dma_ch_read_addr_reg A,
           trans_count_reload := 1, ctrl := scanout_config_B A B\<rparr>"
    using B12 by (simp add: dma' dma12)
  have dk: "dma_ch st' k = dma_ch st k" if "k \<noteq> A" "k \<noteq> B" for k
    using that by (simp add: dma' dma12)
  show ?thesis
    apply (rule exI [of _ ho], rule exI [of _ vo], rule exI [of _ ro])
    apply (rule exI [of _ A], rule exI [of _ B], rule exI [of _ M])
    apply (intro conjI allI impI)
              apply (rule A)
             apply (rule B)
            apply (rule M)
           apply (rule log)
          apply (rule mem')
         apply (rule chan')
        apply (rule dA)
       apply (rule dB)
      apply (erule (1) dk)
      apply (rule txf')
     apply (rule en')
    apply (rule cl')
    done
qed

lemma init_channels:
  assumes "first_unclaimed (dma_claimed st) = Some A"
    and "first_unclaimed (insert A (dma_claimed st)) = Some B"
  shows "rgb_chan_0 st = A" "rgb_chan_1 st = B" "A \<noteq> B" "A < 12" "B < 12"
  using assms first_unclaimed_Some [OF assms(1)] first_unclaimed_Some [OF assms(2)]
  by (auto simp: rgb_chan_0_def rgb_chan_1_def NUM_DMA_CHANNELS_def)

lemma filter_eq_upt: "filter (\<lambda>k. k = A) [0..<n] = (if A < n then [A] else [])"
  by (induction n) auto

lemma starts_of_mask:
  "A < 12 \<Longrightarrow> filter (bit (push_bit A (1 :: u32))) [0..<NUM_DMA_CHANNELS] = [A]"
proof -
  assume A: "A < 12"
  have "filter (bit (push_bit A (1 :: u32))) [0..<NUM_DMA_CHANNELS]
        = filter (\<lambda>k. k = A) [0..<NUM_DMA_CHANNELS]"
    using A by (intro filter_cong) (auto simp: bit_exp_iff)
  also have "\<dots> = [A]"
    using A by (simp only: filter_eq_upt NUM_DMA_CHANNELS_def) simp
  finally show ?thesis .
qed

lemma find_rev_upt_top:
  "P n \<Longrightarrow> find P (rev [0..<Suc n]) = Some n"
  by simp

lemma init_example_ok:
  "VGA_initDisplay scenario_symbols example_program example_program example_program
     16 17 18 21 power_on = Inr armed_example"
proof -
  have "\<not> isl (VGA_initDisplay scenario_symbols example_program example_program example_program
     16 17 18 21 power_on)"
    by code_simp
  then show ?thesis
    by (simp add: armed_example_def)
qed

lemma triggered_fields:
  "read_addr (triggered c) = read_addr c"
  "write_addr (triggered c) = write_addr c"
  "trans_count_reload (triggered c) = trans_count_reload c"
  "ctrl (triggered c) = ctrl c"
  by (simp_all add: triggered_def)

lemma triggered_busy: "en (ctrl c) \<Longrightarrow> busy (triggered c)"
  by (simp add: triggered_def)

lemma write_channel_register_flags:
  "busy (dma_ch (write_channel_register a v st) k) = busy (dma_ch st k)"
  "ctrl (dma_ch (write_channel_register a v st) k) = ctrl (dma_ch st k)"
  by (simp_all add: write_channel_register_def split: option.splits)



lemma complete_idle: "\<not> busy (dma_ch st ch) \<Longrightarrow> dma_sequence_complete ch st = st"
  by (simp add: dma_sequence_complete_def Let_def)








section \<open>Properties of histories\<close>



lemma dma_step_others:
  assumes "chain_to (ctrl (dma_ch st ch)) = ch"
  shows "chain_to (ctrl (dma_ch (dma_step ch st) ch)) = ch"
    and "j \<noteq> ch \<Longrightarrow> dma_ch (dma_step ch st) j = dma_ch st j"
    and "dma_claimed (dma_step ch st) = dma_claimed st"
  using assms by (simp_all add: dma_step_def Let_def dma_finish_self)

lemma wait_others:
  "chain_to (ctrl (dma_ch st ch)) = ch \<Longrightarrow>
   (\<forall>j. j \<noteq> ch \<longrightarrow> dma_ch (dma_channel_wait_for_finish_blocking ch st) j = dma_ch st j)
   \<and> dma_claimed (dma_channel_wait_for_finish_blocking ch st) = dma_claimed st"
proof (induction ch st rule: dma_channel_wait_for_finish_blocking.induct)
  case (1 channel st)
  show ?case
  proof (cases "busy (dma_ch st channel)")
    case True
    note ih = "1.IH" [OF True dma_step_others(1) [OF "1.prems"]]
    show ?thesis
      using ih dma_step_others(2,3) [OF "1.prems"] by (simp add: wait_busy [OF True])
  next
    case False
    then show ?thesis by (simp add: wait_idle_id)
  qed
qed

lemma memset_start_others:
  "chain_to (ctrl (dma_ch (dma_memset_start va d v n st) (nat (memcpy_dma_chan st))))
     = nat (memcpy_dma_chan st)"
  "j \<noteq> nat (memcpy_dma_chan st) \<Longrightarrow> dma_ch (dma_memset_start va d v n st) j = dma_ch st j"
  "dma_claimed (dma_memset_start va d v n st) = dma_claimed st"
  by (simp_all add: dma_memset_start_def dma_channel_configure_def dma_trigger_def triggered_def
      Let_def dma_channel_get_default_config_def channel_config_set_transfer_data_size_def
      channel_config_set_read_increment_def channel_config_set_write_increment_def)

lemma memcpy_start_others:
  "chain_to (ctrl (dma_ch (dma_memcpy_start d s n st) (nat (memcpy_dma_chan st))))
     = nat (memcpy_dma_chan st)"
  "j \<noteq> nat (memcpy_dma_chan st) \<Longrightarrow> dma_ch (dma_memcpy_start d s n st) j = dma_ch st j"
  "dma_claimed (dma_memcpy_start d s n st) = dma_claimed st"
  by (simp_all add: dma_memcpy_start_def dma_channel_configure_def dma_trigger_def triggered_def
      Let_def dma_channel_get_default_config_def channel_config_set_transfer_data_size_def
      channel_config_set_read_increment_def channel_config_set_write_increment_def)

lemma settled_bulk:
  assumes set: "settled_with S st"
    and cl: "dma_claimed st' = dma_claimed st"
    and ch: "memcpy_dma_chan st' = memcpy_dma_chan st"
    and oth: "\<And>j. j \<noteq> nat (memcpy_dma_chan st) \<Longrightarrow> dma_ch st' j = dma_ch st j"
    and self: "\<not> busy (dma_ch st' (nat (memcpy_dma_chan st)))"
  shows "settled_with S st'"
proof -
  let ?M = "nat (memcpy_dma_chan st)"
  from set have S: "\<And>k. k \<in> S \<Longrightarrow> k \<in> dma_claimed st \<and> k \<noteq> ?M
                      \<and> chain_to (ctrl (dma_ch st k)) \<in> S"
    and b: "\<And>k. busy (dma_ch st k) \<Longrightarrow> k \<in> S"
    by (simp_all add: settled_with_def)
  have "bulk_channel_idle st'"
    using self by (simp add: bulk_channel_idle_def ch)
  moreover have "k \<in> S" if "busy (dma_ch st' k)" for k
    using that self oth [of k] b [of k] by (cases "k = ?M") auto
  moreover have "k \<in> dma_claimed st' \<and> k \<noteq> nat (memcpy_dma_chan st')
                  \<and> chain_to (ctrl (dma_ch st' k)) \<in> S" if "k \<in> S" for k
    using S [OF that] oth [of k] by (simp add: cl ch)
  ultimately show ?thesis
    by (simp add: settled_with_def)
qed

lemma dma_memset_settled:
  assumes "settled_with S st"
  shows "settled_with S (dma_memset va d v n st)"
proof (rule settled_bulk [OF assms])
  note w = wait_others [OF memset_start_others(1) [of va d v n st]]
  show "dma_claimed (dma_memset va d v n st) = dma_claimed st"
    using w by (simp add: dma_memset_def memset_start_others(3))
  show "memcpy_dma_chan (dma_memset va d v n st) = memcpy_dma_chan st"
    by (simp add: dma_memset_def wait_fields dma_memset_start_def dma_channel_configure_def
        dma_trigger_def Let_def)
  show "dma_ch (dma_memset va d v n st) j = dma_ch st j" if "j \<noteq> nat (memcpy_dma_chan st)" for j
    using w that by (simp add: dma_memset_def memset_start_others(2))
  show "\<not> busy (dma_ch (dma_memset va d v n st) (nat (memcpy_dma_chan st)))"
    by (simp add: dma_memset_def wait_result_idle)
qed

lemma dma_memcpy_settled:
  assumes "settled_with S st"
  shows "settled_with S (dma_memcpy d s n st)"
proof (rule settled_bulk [OF assms])
  note w = wait_others [OF memcpy_start_others(1) [of d s n st]]
  show "dma_claimed (dma_memcpy d s n st) = dma_claimed st"
    using w by (simp add: dma_memcpy_def memcpy_start_others(3))
  show "memcpy_dma_chan (dma_memcpy d s n st) = memcpy_dma_chan st"
    by (simp add: dma_memcpy_def wait_fields dma_memcpy_start_def dma_channel_configure_def
        dma_trigger_def Let_def)
  show "dma_ch (dma_memcpy d s n st) j = dma_ch st j" if "j \<noteq> nat (memcpy_dma_chan st)" for j
    using w that by (simp add: dma_memcpy_def memcpy_start_others(2))
  show "\<not> busy (dma_ch (dma_memcpy d s n st) (nat (memcpy_dma_chan st)))"
    by (simp add: dma_memcpy_def wait_result_idle)
qed

lemma init_settled:
  assumes init: "VGA_initDisplay L hp vp rp vsync_pin hsync_pin r_pin pclk_pin st = Inr st'"
    and set: "settled_with S st"
  shows "settled_with (insert (rgb_chan_0 st) (insert (rgb_chan_1 st) S)) st'"
    and "mem st' = mem st"
proof -
  from set have S: "\<And>k. k \<in> S \<Longrightarrow> k \<in> dma_claimed st
                      \<and> chain_to (ctrl (dma_ch st k)) \<in> S"
    and b: "\<And>k. busy (dma_ch st k) \<Longrightarrow> k \<in> S"
    by (simp_all add: settled_with_def)
  from VGA_initDisplay_Inr [OF init] obtain A B M where
    A: "first_unclaimed (dma_claimed st) = Some A" and
    B: "first_unclaimed (insert A (dma_claimed st)) = Some B" and
    M: "first_unclaimed (insert B (insert A (dma_claimed st))) = Some M" and
    m: "mem st' = mem st" and
    chan: "memcpy_dma_chan st' = int M" and
    chA: "dma_ch st' A = triggered ((dma_ch st A)
          \<lparr>read_addr := vga_data_array L, write_addr := pio_txf_addr pio1 3,
           trans_count_reload := TXCOUNT, ctrl := scanout_config_A A B\<rparr>)" and
    chB: "dma_ch st' B = (dma_ch st B)
          \<lparr>read_addr := address_pointer_cell L, write_addr := dma_ch_read_addr_reg A,
           trans_count_reload := 1, ctrl := scanout_config_B A B\<rparr>" and
    oth: "\<forall>k. k \<noteq> A \<longrightarrow> k \<noteq> B \<longrightarrow> dma_ch st' k = dma_ch st k" and
    cl: "dma_claimed st' = insert M (insert B (insert A (dma_claimed st)))"
    by blast
  note ch = init_channels [OF A B]
  from first_unclaimed_Some [OF A] have A': "A \<notin> dma_claimed st" by simp
  from first_unclaimed_Some [OF B] have B': "B \<notin> dma_claimed st" by simp
  from first_unclaimed_Some [OF M] have M': "M \<noteq> A" "M \<noteq> B" "M \<notin> dma_claimed st"
    by auto
  have notS: "A \<notin> S" "B \<notin> S" "M \<notin> S"
    using S A' B' M'(3) by blast+
  have toA: "chain_to (ctrl (dma_ch st' A)) = B"
    by (simp add: chA triggered_fields scanout_config_A_def)
  have toB: "chain_to (ctrl (dma_ch st' B)) = A"
    by (simp add: chB scanout_config_B_def)
  have "bulk_channel_idle st'"
    using M' oth b [of M] notS by (auto simp: bulk_channel_idle_def chan)
  moreover have "k \<in> insert A (insert B S)" if "busy (dma_ch st' k)" for k
    using that oth b [of k] by (cases "k = A \<or> k = B") auto
  moreover have "k \<in> dma_claimed st' \<and> k \<noteq> nat (memcpy_dma_chan st')
                  \<and> chain_to (ctrl (dma_ch st' k)) \<in> insert A (insert B S)"
    if "k \<in> insert A (insert B S)" for k
  proof (cases "k = A \<or> k = B")
    case True
    then show ?thesis using toA toB M' by (auto simp: cl chan)
  next
    case False
    with that have k: "k \<in> S" by simp
    with notS have "k \<noteq> M" by auto
    with S [OF k] False oth show ?thesis by (simp add: cl chan)
  qed
  ultimately show "settled_with (insert (rgb_chan_0 st) (insert (rgb_chan_1 st) S)) st'"
    unfolding ch(1) ch(2) by (simp add: settled_with_def)
  show "mem st' = mem st" by (rule m)
qed

lemma write_channel_register_fields:
  "mem (write_channel_register a v st) = mem st"
  "dma_claimed (write_channel_register a v st) = dma_claimed st"
  "memcpy_dma_chan (write_channel_register a v st) = memcpy_dma_chan st"
  by (simp_all add: write_channel_register_def split: option.splits)

lemma dma_finish_general:
  "dma_claimed (dma_finish ch st) = dma_claimed st"
  "ctrl (dma_ch (dma_finish ch st) k) = ctrl (dma_ch st k)"
  "busy (dma_ch (dma_finish ch st) k) \<Longrightarrow>
     busy (dma_ch st k) \<or> k = chain_to (ctrl (dma_ch st ch))"
  by (auto simp: dma_finish_def Let_def dma_trigger_def triggered_def split: if_splits)

lemma complete_general:
  "mem (dma_sequence_complete ch st) = mem st"
  "dma_claimed (dma_sequence_complete ch st) = dma_claimed st"
  "memcpy_dma_chan (dma_sequence_complete ch st) = memcpy_dma_chan st"
  "ctrl (dma_ch (dma_sequence_complete ch st) k) = ctrl (dma_ch st k)"
  by (simp_all add: dma_sequence_complete_def Let_def dma_finish_fields dma_finish_general
      write_channel_register_fields write_channel_register_flags)

lemma complete_busy:
  assumes "busy (dma_ch (dma_sequence_complete ch st) k)"
  shows "busy (dma_ch st k) \<or> (busy (dma_ch st ch) \<and> k = chain_to (ctrl (dma_ch st ch)))"
proof (cases "busy (dma_ch st ch)")
  case False
  with assms show ?thesis by (simp add: complete_idle)
next
  case True
  let ?c = "dma_ch st ch"
  let ?span = "trans_count ?c * of_nat (dma_size_bytes (data_size (ctrl ?c)))"
  let ?c' = "?c\<lparr>read_addr := (if incr_read (ctrl ?c) then read_addr ?c + ?span else read_addr ?c),
                 write_addr := (if incr_write (ctrl ?c) then write_addr ?c + ?span else write_addr ?c),
                 trans_count := 0\<rparr>"
  let ?st1 = "st\<lparr>dma_ch := (dma_ch st)(ch := ?c')\<rparr>"
  let ?st2 = "(if data_size (ctrl ?c) = DMA_SIZE_32 \<and> \<not> incr_read (ctrl ?c)
                      \<and> \<not> incr_write (ctrl ?c) \<and> trans_count ?c \<noteq> 0
                   then write_channel_register (write_addr ?c) (load32 (mem st) (read_addr ?c)) ?st1
                   else ?st1)"
  have eq: "dma_sequence_complete ch st = dma_finish ch ?st2"
    using True by (simp add: dma_sequence_complete_def Let_def)
  have flags: "busy (dma_ch ?st2 j) = busy (dma_ch st j)" "ctrl (dma_ch ?st2 j) = ctrl (dma_ch st j)"
    for j
    by (simp_all add: write_channel_register_flags)
  from assms have "busy (dma_ch ?st2 k) \<or> k = chain_to (ctrl (dma_ch ?st2 ch))"
    unfolding eq by (rule dma_finish_general(3))
  then show ?thesis
    using True by (simp only: flags) simp
qed

lemma complete_settled:
  assumes set: "settled_with S st"
  shows "settled_with S (dma_sequence_complete ch st)"
proof -
  let ?st' = "dma_sequence_complete ch st"
  from set have S: "\<And>k. k \<in> S \<Longrightarrow> k \<in> dma_claimed st \<and> k \<noteq> nat (memcpy_dma_chan st)
                      \<and> chain_to (ctrl (dma_ch st k)) \<in> S"
    and b: "\<And>k. busy (dma_ch st k) \<Longrightarrow> k \<in> S"
    and idle: "\<not> busy (dma_ch st (nat (memcpy_dma_chan st)))"
    by (simp_all add: settled_with_def bulk_channel_idle_def)
  have in_S: "k \<in> S" if "busy (dma_ch ?st' k)" for k
    using complete_busy [OF that] b S by blast
  have "bulk_channel_idle ?st'"
    using in_S [of "nat (memcpy_dma_chan st)"] S
    by (auto simp: bulk_channel_idle_def complete_general)
  with in_S S show ?thesis
    by (simp add: settled_with_def complete_general)
qed





lemma run_step_settled:
  assumes set: "settled_with S st" and run: "run_step L c st = Inr st'"
  shows "channels_settled st'"
proof (cases c)
  case (InitDisplay hp vp rp p1 p2 p3 p4)
  with run have "VGA_initDisplay L hp vp rp p1 p2 p3 p4 st = Inr st'" by simp
  from init_settled(1) [OF this set] show ?thesis
    unfolding channels_settled_def by (rule exI)
next
  case (FillScreen va color)
  with run have "st' = dma_memset va (vga_data_array L)
      (ucast ((ucast color :: u32) OR push_bit 3 (ucast color :: u32))) TXCOUNT st"
    by (simp add: VGA_fillScreen_def)
  then show ?thesis
    unfolding channels_settled_def using dma_memset_settled [OF set] by (intro exI [of _ S]) simp
next
  case (DrawFrame src)
  with run have "st' = dma_memcpy (vga_data_array L) src TXCOUNT st"
    by (simp add: VGA_drawFrame_def)
  then show ?thesis
    unfolding channels_settled_def using dma_memcpy_settled [OF set] by (intro exI [of _ S]) simp
next
  case (Memset va d v n)
  with run have "st' = dma_memset va d v n st" by simp
  then show ?thesis
    unfolding channels_settled_def using dma_memset_settled [OF set] by (intro exI [of _ S]) simp
next
  case (Memcpy d s n)
  with run have "st' = dma_memcpy d s n st" by simp
  then show ?thesis
    unfolding channels_settled_def using dma_memcpy_settled [OF set] by (intro exI [of _ S]) simp
next
  case (Chain_completion ch)
  with run have "st' = dma_sequence_complete ch st" by simp
  then show ?thesis
    unfolding channels_settled_def using complete_settled [OF set] by (intro exI [of _ S]) simp
qed


lemma run_steps_settled:
  "channels_settled st \<Longrightarrow> run_steps L steps st = Inr st' \<Longrightarrow> channels_settled st'"
proof (induction steps arbitrary: st)
  case Nil
  then show ?case by simp
next
  case (Cons c cs)
  from Cons.prems(2) obtain st1 where
    c: "run_step L c st = Inr st1" and cs: "run_steps L cs st1 = Inr st'"
    by (auto split: sum.splits)
  from Cons.prems(1) obtain S where "settled_with S st"
    by (auto simp: channels_settled_def)
  then have "channels_settled st1" using c by (rule run_step_settled)
  then show ?case using cs by (rule Cons.IH)
qed


lemma program_start_settled: "channels_settled (program_start L)"
proof -
  have "settled_with {} (program_start L)"
    by (simp add: settled_with_def bulk_channel_idle_def program_start_def power_on_def
        reset_channel_def)
  then show ?thesis by (auto simp: channels_settled_def)
qed

text \<open>Every state that a history reaches from the start of the program has the shared
  channel idle, and no unclaimed channel busy: the bulk-memory operations are always
  called in the state for which their properties are stated.\<close>

lemma reachable_channels_idle:
  assumes "run_steps L steps (program_start L) = Inr st'"
  shows "bulk_channel_idle st'" and "\<And>k. k \<notin> dma_claimed st' \<Longrightarrow> \<not> busy (dma_ch st' k)"
proof -
  from run_steps_settled [OF program_start_settled assms] obtain S where
    "settled_with S st'"
    by (auto simp: channels_settled_def)
  then show "bulk_channel_idle st'" and "\<And>k. k \<notin> dma_claimed st' \<Longrightarrow> \<not> busy (dma_ch st' k)"
    by (auto simp: settled_with_def)
qed













section \<open>The bulk-memory claims\<close>

text \<open>
  \<^bold>\<open>C1\<close> (fill correctness). For every destination \<open>dst\<close>, byte \<open>v\<close> and count,
  when \<^verbatim>\<open>dma_memset(dst, v, count)\<close> is called with the shared channel idle, then on
  return every byte of \<open>dst[0..count)\<close> equals \<open>v\<close>, and every other byte of memory
  has its value from before the call. The one cell the statement sets apart is the
  storage of the parameter \<^verbatim>\<open>val\<close> itself, which comes into being with the call and
  is not part of the caller's memory. The channel is idle again on return.
\<close>

theorem dma_memset_fills:
  assumes "bulk_channel_idle st"
  shows "(\<forall>i < unat count. mem (dma_memset val_addr dst v count st) (dst + of_nat i) = v)
       \<and> (\<forall>a. (\<forall>i < unat count. a \<noteq> dst + of_nat i) \<longrightarrow> a \<noteq> val_addr \<longrightarrow>
              mem (dma_memset val_addr dst v count st) a = mem st a)
       \<and> bulk_channel_idle (dma_memset val_addr dst v count st)"
proof -
  have m: "mem (dma_memset val_addr dst v count st) a =
           (if \<exists>i < unat count. a = dst + of_nat i then v else ((mem st)(val_addr := v)) a)" for a
    by (simp only: mem_dma_memset [OF assms]) (rule byte_transfers_fill, simp)
  show ?thesis
    using dma_memset_idle [OF assms] by (auto simp: m)
qed

theorem dma_memset_fills_witness:
  "bulk_channel_idle power_on
   \<and> mem (dma_memset 0x20041000 0x20000000 0xAB 3 power_on) 0x20000002 = 0xAB
   \<and> mem (dma_memset 0x20041000 0x20000000 0xAB 3 power_on) 0x20000003 = mem power_on 0x20000003"
proof -
  note t = dma_memset_fills [OF power_on_idle, of 3 "0x20041000" "0x20000000" "0xAB"]
  have "mem (dma_memset 0x20041000 0x20000000 0xAB 3 power_on) (0x20000000 + of_nat 2) = 0xAB"
    using t [THEN conjunct1, rule_format, of 2] by simp
  moreover have "\<not> (\<exists>i < unat (3 :: u32). (0x20000003 :: u32) = 0x20000000 + of_nat i)"
    by (simp only: range_iff) simp
  then have "mem (dma_memset 0x20041000 0x20000000 0xAB 3 power_on) 0x20000003 = mem power_on 0x20000003"
    using t [THEN conjunct2, THEN conjunct1, rule_format, of "0x20000003"] by simp
  ultimately show ?thesis using power_on_idle by simp
qed



text \<open>
  \<^bold>\<open>C3\<close> (fill screen, idempotence). For every 3-bit colour \<open>c\<close>,
  \<^verbatim>\<open>VGA_fillScreen(c)\<close> is the fill primitive applied to the whole frame of
  \<open>TXCOUNT = 76800\<close> bytes with the pattern \<open>c | c << 3\<close>; on return every byte of the
  frame has that value, and a second call with the same colour leaves every byte of the
  frame as the first call left it.
\<close>

theorem VGA_fillScreen_packs:
  assumes idle: "bulk_channel_idle st" and c: "unat c < 8"
  shows "VGA_fillScreen L va c st =
           dma_memset va (vga_data_array L)
             (ucast ((ucast c :: u32) OR push_bit 3 (ucast c :: u32))) TXCOUNT st
       \<and> unat TXCOUNT = 76800
       \<and> (\<forall>i < unat TXCOUNT.
             unat (mem (VGA_fillScreen L va c st) (vga_data_array L + of_nat i))
               = unat c OR push_bit 3 (unat c))
       \<and> (\<forall>i < unat TXCOUNT.
             mem (VGA_fillScreen L va' c (VGA_fillScreen L va c st)) (vga_data_array L + of_nat i)
               = mem (VGA_fillScreen L va c st) (vga_data_array L + of_nat i))"
proof (intro conjI allI impI)
  show "VGA_fillScreen L va c st =
          dma_memset va (vga_data_array L)
            (ucast ((ucast c :: u32) OR push_bit 3 (ucast c :: u32))) TXCOUNT st"
    by (simp add: VGA_fillScreen_def)
  show "unat TXCOUNT = 76800"
    by (simp add: TXCOUNT_def)
next
  fix i assume i: "i < unat TXCOUNT"
  have "(unat c OR push_bit 3 (unat c)) mod 256 = unat c OR push_bit 3 (unat c)"
    using packed_small [OF c] by simp
  then show "unat (mem (VGA_fillScreen L va c st) (vga_data_array L + of_nat i))
               = unat c OR push_bit 3 (unat c)"
    using frame_index [OF i] by (simp add: mem_fillScreen [OF idle] packed_value)
next
  fix i assume i: "i < unat TXCOUNT"
  show "mem (VGA_fillScreen L va' c (VGA_fillScreen L va c st)) (vga_data_array L + of_nat i)
          = mem (VGA_fillScreen L va c st) (vga_data_array L + of_nat i)"
    using frame_index [OF i]
    by (simp add: mem_fillScreen [OF fillScreen_idle [OF idle]] mem_fillScreen [OF idle])
qed

theorem VGA_fillScreen_packs_witness:
  "bulk_channel_idle power_on \<and> unat RED < 8
   \<and> unat (mem (VGA_fillScreen scenario_symbols scenario_val_addr RED power_on) 0x20012BFF) = 36
   \<and> mem (VGA_fillScreen scenario_symbols scenario_val_addr RED
             (VGA_fillScreen scenario_symbols scenario_val_addr RED power_on)) 0x20012BFF
       = mem (VGA_fillScreen scenario_symbols scenario_val_addr RED power_on) 0x20012BFF"
proof -
  have c: "unat RED < 8" by (simp add: RED_def)
  have i: "76799 < unat TXCOUNT" by (simp add: TXCOUNT_def)
  have a: "vga_data_array scenario_symbols + of_nat 76799 = 0x20012BFF"
    by (simp add: scenario_symbols_def)
  have v: "unat RED OR push_bit 3 (unat RED) = 36" by (simp add: RED_def)
  note t = VGA_fillScreen_packs [OF power_on_idle c, of scenario_symbols scenario_val_addr
      scenario_val_addr]
  have "unat (mem (VGA_fillScreen scenario_symbols scenario_val_addr RED power_on) 0x20012BFF) = 36"
    using t [THEN conjunct2, THEN conjunct2, THEN conjunct1, rule_format, OF i] by (simp only: a v)
  moreover have "mem (VGA_fillScreen scenario_symbols scenario_val_addr RED
             (VGA_fillScreen scenario_symbols scenario_val_addr RED power_on)) 0x20012BFF
       = mem (VGA_fillScreen scenario_symbols scenario_val_addr RED power_on) 0x20012BFF"
    using t [THEN conjunct2, THEN conjunct2, THEN conjunct2, rule_format, OF i] by (simp only: a)
  ultimately show ?thesis using power_on_idle c by simp
qed

text \<open>
  \<^bold>\<open>C10\<close> (truncation of the pattern). For every 16-bit colour \<open>c\<close>, the byte that
  \<^verbatim>\<open>VGA_fillScreen(c)\<close> writes to each of the \<open>TXCOUNT\<close> positions of the frame is
  \<open>(c | c << 3) mod 256\<close>. For a 3-bit \<open>c\<close> that is the pattern itself; for
  \<open>c \<ge> 32\<close> the pattern is at least 256 and the byte written is smaller than it: the
  high bits are lost.
\<close>

theorem VGA_fillScreen_truncates:
  assumes idle: "bulk_channel_idle st"
  shows "(\<forall>i < unat TXCOUNT.
            unat (mem (VGA_fillScreen L va c st) (vga_data_array L + of_nat i))
              = (unat c OR push_bit 3 (unat c)) mod 256)
       \<and> (unat c < 8 \<longrightarrow> (unat c OR push_bit 3 (unat c)) mod 256 = unat c OR push_bit 3 (unat c))
       \<and> (32 \<le> unat c \<longrightarrow>
            256 \<le> (unat c OR push_bit 3 (unat c))
            \<and> (\<forall>i < unat TXCOUNT.
                 unat (mem (VGA_fillScreen L va c st) (vga_data_array L + of_nat i))
                   < unat c OR push_bit 3 (unat c)))"
proof -
  have byte: "unat (mem (VGA_fillScreen L va c st) (vga_data_array L + of_nat i))
                = (unat c OR push_bit 3 (unat c)) mod 256" if "i < unat TXCOUNT" for i
    using frame_index [OF that] by (simp add: mem_fillScreen [OF idle] packed_value)
  have small: "(unat c OR push_bit 3 (unat c)) mod 256 = unat c OR push_bit 3 (unat c)"
    if "unat c < 8"
    using packed_small [OF that] by simp
  have large: "256 \<le> (unat c OR push_bit 3 (unat c))" if "32 \<le> unat c"
    using that by (rule packed_large)
  have lost: "unat (mem (VGA_fillScreen L va c st) (vga_data_array L + of_nat i))
                < unat c OR push_bit 3 (unat c)" if "32 \<le> unat c" "i < unat TXCOUNT" for i
  proof -
    have "(unat c OR push_bit 3 (unat c)) mod 256 < 256" by simp
    also have "256 \<le> (unat c OR push_bit 3 (unat c))" using that(1) by (rule large)
    finally show ?thesis by (simp add: byte [OF that(2)])
  qed
  from byte small large lost show ?thesis by blast
qed

theorem VGA_fillScreen_truncates_witness:
  "bulk_channel_idle power_on
   \<and> unat (mem (VGA_fillScreen scenario_symbols scenario_val_addr 32 power_on) 0x20000000) = 32
   \<and> unat (32 :: u16) OR push_bit 3 (unat (32 :: u16)) = 288
   \<and> unat (mem (VGA_fillScreen scenario_symbols scenario_val_addr WHITE power_on) 0x20000000) = 63"
proof -
  have i: "0 < unat TXCOUNT" by (simp add: TXCOUNT_def)
  have a: "vga_data_array scenario_symbols + of_nat 0 = 0x20000000"
    by (simp add: scenario_symbols_def)
  have v: "unat (32 :: u16) OR push_bit 3 (unat (32 :: u16)) = 288" by simp
  have w: "(unat WHITE OR push_bit 3 (unat WHITE)) mod 256 = 63" by (simp add: WHITE_def)
  have "unat (mem (VGA_fillScreen scenario_symbols scenario_val_addr 32 power_on) 0x20000000)
          = 288 mod 256"
    using VGA_fillScreen_truncates [OF power_on_idle, of scenario_symbols scenario_val_addr 32,
        THEN conjunct1, rule_format, OF i]
    by (simp only: a v)
  moreover have "unat (mem (VGA_fillScreen scenario_symbols scenario_val_addr WHITE power_on) 0x20000000)
          = 63"
    using VGA_fillScreen_truncates [OF power_on_idle, of scenario_symbols scenario_val_addr WHITE,
        THEN conjunct1, rule_format, OF i]
    by (simp only: a w)
  ultimately show ?thesis using power_on_idle v by simp
qed

text \<open>
  \<^bold>\<open>C4\<close> (frame-length contract), as the code has it. After
  \<^verbatim>\<open>VGA_fillScreen(RED)\<close>, \<^verbatim>\<open>VGA_drawFrame(src)\<close> with a source of 76800 bytes that
  are all \<open>WHITE = 0b111\<close> replaces the whole frame: every byte of the frame is then the
  source byte \<open>0b111\<close>. The copy does not pack: \<open>0b111\<close> is not the packed pattern
  \<open>WHITE | WHITE << 3 = 0b111111\<close> that the claim names, as the counterexample shows
  in a concrete layout.
\<close>

theorem VGA_drawFrame_replaces:
  assumes idle: "bulk_channel_idle st"
    and white: "buffer_all src TXCOUNT (ucast WHITE) (VGA_fillScreen L va RED st)"
  shows "buffer_all (vga_data_array L) TXCOUNT (ucast WHITE)
           (VGA_drawFrame L src (VGA_fillScreen L va RED st))
       \<and> unat TXCOUNT = 76800 \<and> (ucast WHITE :: u8) = 7
       \<and> (ucast WHITE :: u8) \<noteq> ucast ((ucast WHITE :: u32) OR push_bit 3 (ucast WHITE :: u32))"
proof -
  let ?st1 = "VGA_fillScreen L va RED st"
  have idle1: "bulk_channel_idle ?st1"
    using idle by (rule fillScreen_idle)
  have src: "mem ?st1 (src + of_nat j) = 7" if "j < unat TXCOUNT" for j
    using white that by (simp add: buffer_all_def white_byte)
  have fb: "mem ?st1 (vga_data_array L + of_nat i) = 0x24" if "i < unat TXCOUNT" for i
    using frame_index [OF that] by (simp add: mem_fillScreen [OF idle] red_pattern)
  have apart: "src + of_nat j \<noteq> vga_data_array L + of_nat i"
    if "i < unat TXCOUNT" "j < unat TXCOUNT" for i j
  proof
    assume "src + of_nat j = vga_data_array L + of_nat i"
    then have "mem ?st1 (src + of_nat j) = mem ?st1 (vga_data_array L + of_nat i)" by simp
    then show False using src [OF that(2)] fb [OF that(1)] by simp
  qed
  have const: "src_held_constant (vga_data_array L) src TXCOUNT ?st1"
    using idle1 apart by (rule src_held_constant_disjoint)
  have "mem (VGA_drawFrame L src ?st1) (vga_data_array L + of_nat i) = 7"
    if "i < unat TXCOUNT" for i
    using mem_memcpy_range [OF idle1 const that] src [OF that] by (simp add: VGA_drawFrame_def)
  then have "buffer_all (vga_data_array L) TXCOUNT (ucast WHITE) (VGA_drawFrame L src ?st1)"
    by (simp add: buffer_all_def white_byte)
  moreover have "(ucast WHITE :: u8) \<noteq> ucast ((ucast WHITE :: u32) OR push_bit 3 (ucast WHITE :: u32))"
    by (simp add: WHITE_def)
  ultimately show ?thesis
    by (simp add: TXCOUNT_def white_byte)
qed

theorem VGA_drawFrame_replaces_witness:
  "bulk_channel_idle scenario_state
   \<and> buffer_all scenario_src TXCOUNT (ucast WHITE)
        (VGA_fillScreen scenario_symbols scenario_val_addr RED scenario_state)
   \<and> buffer_all (vga_data_array scenario_symbols) TXCOUNT (ucast WHITE)
        (VGA_drawFrame scenario_symbols scenario_src
           (VGA_fillScreen scenario_symbols scenario_val_addr RED scenario_state))"
  using VGA_drawFrame_replaces [OF scenario_idle scenario_src_white] scenario_idle scenario_src_white
  by blast

theorem packed_white_counterexample:
  "buffer_all scenario_src TXCOUNT (ucast WHITE)
     (VGA_fillScreen scenario_symbols scenario_val_addr RED scenario_state)
   \<and> mem (VGA_drawFrame scenario_symbols scenario_src
             (VGA_fillScreen scenario_symbols scenario_val_addr RED scenario_state))
         (vga_data_array scenario_symbols) = 7
   \<and> (ucast ((ucast WHITE :: u32) OR push_bit 3 (ucast WHITE :: u32)) :: u8) = 63
   \<and> \<not> buffer_all (vga_data_array scenario_symbols) TXCOUNT
          (ucast ((ucast WHITE :: u32) OR push_bit 3 (ucast WHITE :: u32)))
          (VGA_drawFrame scenario_symbols scenario_src
             (VGA_fillScreen scenario_symbols scenario_val_addr RED scenario_state))"
proof -
  let ?st1 = "VGA_fillScreen scenario_symbols scenario_val_addr RED scenario_state"
  let ?st2 = "VGA_drawFrame scenario_symbols scenario_src ?st1"
  have idle1: "bulk_channel_idle ?st1"
    using scenario_idle by (rule fillScreen_idle)
  have const: "src_held_constant (vga_data_array scenario_symbols) scenario_src TXCOUNT ?st1"
    using idle1
    by (rule src_held_constant_disjoint)
       (rule ranges_apart [where n = TXCOUNT],
        simp_all add: scenario_src_def scenario_symbols_def TXCOUNT_def)
  have zero: "0 < unat TXCOUNT" by (simp add: TXCOUNT_def)
  have "mem ?st2 (vga_data_array scenario_symbols + of_nat 0) = mem ?st1 (scenario_src + of_nat 0)"
    unfolding VGA_drawFrame_def using idle1 const zero by (rule mem_memcpy_range)
  also have "\<dots> = 7"
    using scenario_src_white zero unfolding buffer_all_def white_byte by blast
  finally have first: "mem ?st2 (vga_data_array scenario_symbols) = 7" by simp
  have pat: "(ucast ((ucast WHITE :: u32) OR push_bit 3 (ucast WHITE :: u32)) :: u8) = 63"
    by (simp add: WHITE_def)
  have "\<not> buffer_all (vga_data_array scenario_symbols) TXCOUNT 63 ?st2"
  proof
    assume "buffer_all (vga_data_array scenario_symbols) TXCOUNT 63 ?st2"
    then have "mem ?st2 (vga_data_array scenario_symbols + of_nat 0) = 63"
      using zero unfolding buffer_all_def by blast
    with first show False by simp
  qed
  with first pat scenario_src_white show ?thesis by simp
qed

section \<open>The initialisation claims\<close>

text \<open>
  \<^bold>\<open>C9\<close> (the vertical seed). A successful \<^verbatim>\<open>VGA_initDisplay\<close> writes exactly three
  seeds, in this order: \<open>H_ACTIVE\<close> to the horizontal generator, the literal \<open>239\<close> to
  the vertical generator and \<open>RGB_ACTIVE\<close> to the colour generator, and each is then
  the newest word of that generator's input FIFO. The literal differs from the program's
  constant \<open>V_ACTIVE_PLUS_FRONT = 243\<close>; the other two seeds are the named constants
  \<open>339\<close> and \<open>319\<close>.
\<close>

theorem seeds_of_generators:
  assumes "VGA_initDisplay L hp vp rp vsync_pin hsync_pin r_pin pclk_pin st = Inr st'"
  shows "filter is_sm_put (logged_by st st') =
           [PIO_SM_PUT pio1 hsync_sm H_ACTIVE, PIO_SM_PUT pio1 vsync_sm 239,
            PIO_SM_PUT pio1 rgb_sm RGB_ACTIVE]
       \<and> txf st' pio1 hsync_sm = txf st pio1 hsync_sm @ [H_ACTIVE]
       \<and> txf st' pio1 vsync_sm = txf st pio1 vsync_sm @ [239]
       \<and> txf st' pio1 rgb_sm = txf st pio1 rgb_sm @ [RGB_ACTIVE]
       \<and> V_ACTIVE_PLUS_FRONT = 243 \<and> (239 :: u32) \<noteq> V_ACTIVE_PLUS_FRONT
       \<and> H_ACTIVE = 339 \<and> RGB_ACTIVE = 319"
proof -
  from VGA_initDisplay_Inr [OF assms] obtain ho vo ro A B M where
    log: "hw_log st' = hw_log st @
        [PIO_ADD_PROGRAM pio1 ho, PIO_ADD_PROGRAM pio1 vo, PIO_ADD_PROGRAM pio1 ro,
         SM_PROGRAM_INIT pio1 0 ho hsync_pin, SM_PROGRAM_INIT pio1 1 vo vsync_pin,
         SM_PROGRAM_INIT pio1 3 ro r_pin,
         DMA_CLAIM_UNUSED_CHANNEL (int A), DMA_CLAIM_UNUSED_CHANNEL (int B),
         DMA_CLAIM_UNUSED_CHANNEL (int M),
         DMA_CHANNEL_CONFIGURE A False, DMA_CHANNEL_CONFIGURE B False,
         PIO_SM_PUT pio1 0 H_ACTIVE, PIO_SM_PUT pio1 1 239, PIO_SM_PUT pio1 3 RGB_ACTIVE,
         PIO_ENABLE_SM_MASK_IN_SYNC pio1 15, DMA_START_CHANNEL_MASK (push_bit A 1)]"
    and fifo: "txf st' pio1 = (txf st pio1)(0 := txf st pio1 0 @ [H_ACTIVE],
                 1 := txf st pio1 1 @ [239], 3 := txf st pio1 3 @ [RGB_ACTIVE])"
    by blast
  have "filter is_sm_put (logged_by st st') =
           [PIO_SM_PUT pio1 hsync_sm H_ACTIVE, PIO_SM_PUT pio1 vsync_sm 239,
            PIO_SM_PUT pio1 rgb_sm RGB_ACTIVE]"
    by (simp add: logged_by_def log hsync_sm_def vsync_sm_def rgb_sm_def)
  moreover have "txf st' pio1 hsync_sm = txf st pio1 hsync_sm @ [H_ACTIVE]"
    "txf st' pio1 vsync_sm = txf st pio1 vsync_sm @ [239]"
    "txf st' pio1 rgb_sm = txf st pio1 rgb_sm @ [RGB_ACTIVE]"
    by (simp_all add: fifo hsync_sm_def vsync_sm_def rgb_sm_def)
  moreover have "V_ACTIVE_PLUS_FRONT = 243" "(239 :: u32) \<noteq> V_ACTIVE_PLUS_FRONT"
    "H_ACTIVE = 339" "RGB_ACTIVE = 319"
    by (simp_all add: V_ACTIVE_PLUS_FRONT_def H_ACTIVE_def RGB_ACTIVE_def)
  ultimately show ?thesis by simp
qed

theorem seeds_of_generators_witness:
  "VGA_initDisplay scenario_symbols example_program example_program example_program
     16 17 18 21 power_on = Inr armed_example
   \<and> txf armed_example pio1 vsync_sm = [239]
   \<and> txf armed_example pio1 hsync_sm = [339]
   \<and> txf armed_example pio1 rgb_sm = [319]"
  using seeds_of_generators [OF init_example_ok] init_example_ok
  by (simp add: power_on_def H_ACTIVE_def RGB_ACTIVE_def)

text \<open>
  \<^bold>\<open>C7\<close> (start order). The operations that a successful \<^verbatim>\<open>VGA_initDisplay\<close>
  issues contain exactly one enable operation; its mask holds the horizontal, the
  vertical and the colour generator, so the three start together. No operation before it
  starts a transfer channel, and the operations after it start exactly one channel,
  \<^verbatim>\<open>rgb_chan_0\<close> (channel A), which is therefore busy on return. Channel B is another
  channel, so the function never starts it directly.
\<close>

theorem generators_start_together:
  assumes "VGA_initDisplay L hp vp rp vsync_pin hsync_pin r_pin pclk_pin st = Inr st'"
  shows "\<exists>pre post m.
           logged_by st st' = pre @ [PIO_ENABLE_SM_MASK_IN_SYNC pio1 m] @ post
         \<and> bit m hsync_sm \<and> bit m vsync_sm \<and> bit m rgb_sm
         \<and> filter is_sm_enable (pre @ post) = []
         \<and> concat (map channel_starts pre) = []
         \<and> concat (map channel_starts post) = [rgb_chan_0 st]
         \<and> rgb_chan_1 st \<noteq> rgb_chan_0 st
         \<and> sm_enabled st' pio1 hsync_sm \<and> sm_enabled st' pio1 vsync_sm
         \<and> sm_enabled st' pio1 rgb_sm
         \<and> busy (dma_ch st' (rgb_chan_0 st))"
proof -
  from VGA_initDisplay_Inr [OF assms] obtain ho vo ro A B M where
    A: "first_unclaimed (dma_claimed st) = Some A" and
    B: "first_unclaimed (insert A (dma_claimed st)) = Some B" and
    log: "hw_log st' = hw_log st @
        [PIO_ADD_PROGRAM pio1 ho, PIO_ADD_PROGRAM pio1 vo, PIO_ADD_PROGRAM pio1 ro,
         SM_PROGRAM_INIT pio1 0 ho hsync_pin, SM_PROGRAM_INIT pio1 1 vo vsync_pin,
         SM_PROGRAM_INIT pio1 3 ro r_pin,
         DMA_CLAIM_UNUSED_CHANNEL (int A), DMA_CLAIM_UNUSED_CHANNEL (int B),
         DMA_CLAIM_UNUSED_CHANNEL (int M),
         DMA_CHANNEL_CONFIGURE A False, DMA_CHANNEL_CONFIGURE B False,
         PIO_SM_PUT pio1 0 H_ACTIVE, PIO_SM_PUT pio1 1 239, PIO_SM_PUT pio1 3 RGB_ACTIVE,
         PIO_ENABLE_SM_MASK_IN_SYNC pio1 15, DMA_START_CHANNEL_MASK (push_bit A 1)]" and
    chA: "dma_ch st' A = triggered ((dma_ch st A)
          \<lparr>read_addr := vga_data_array L, write_addr := pio_txf_addr pio1 3,
           trans_count_reload := TXCOUNT, ctrl := scanout_config_A A B\<rparr>)" and
    en: "\<forall>sm. sm_enabled st' pio1 sm = (sm < 4 \<or> sm_enabled st pio1 sm)"
    by blast
  note ch = init_channels [OF A B]
  let ?pre = "[PIO_ADD_PROGRAM pio1 ho, PIO_ADD_PROGRAM pio1 vo, PIO_ADD_PROGRAM pio1 ro,
         SM_PROGRAM_INIT pio1 0 ho hsync_pin, SM_PROGRAM_INIT pio1 1 vo vsync_pin,
         SM_PROGRAM_INIT pio1 3 ro r_pin,
         DMA_CLAIM_UNUSED_CHANNEL (int A), DMA_CLAIM_UNUSED_CHANNEL (int B),
         DMA_CLAIM_UNUSED_CHANNEL (int M),
         DMA_CHANNEL_CONFIGURE A False, DMA_CHANNEL_CONFIGURE B False,
         PIO_SM_PUT pio1 0 H_ACTIVE, PIO_SM_PUT pio1 1 239, PIO_SM_PUT pio1 3 RGB_ACTIVE]"
  let ?post = "[DMA_START_CHANNEL_MASK (push_bit A 1)]"
  have split: "logged_by st st' = ?pre @ [PIO_ENABLE_SM_MASK_IN_SYNC pio1 15] @ ?post"
    by (simp add: logged_by_def log)
  have bits: "bit (15 :: u32) hsync_sm" "bit (15 :: u32) vsync_sm" "bit (15 :: u32) rgb_sm"
    by (simp_all only: bit_15 hsync_sm_def vsync_sm_def rgb_sm_def)
  have quiet: "filter is_sm_enable (?pre @ ?post) = []" "concat (map channel_starts ?pre) = []"
    by simp_all
  have start: "concat (map channel_starts ?post) = [rgb_chan_0 st]"
    using starts_of_mask [OF ch(4)] by (simp add: ch(1))
  have on: "sm_enabled st' pio1 hsync_sm" "sm_enabled st' pio1 vsync_sm"
    "sm_enabled st' pio1 rgb_sm"
    by (simp_all add: en hsync_sm_def vsync_sm_def rgb_sm_def)
  have "busy (dma_ch st' (rgb_chan_0 st))"
    unfolding ch(1) chA
    by (rule triggered_busy) (simp add: scanout_config_A_def dma_channel_get_default_config_def)
  with split bits quiet start on ch(1,2,3) show ?thesis
    by (intro exI [of _ ?pre] exI [of _ ?post] exI [of _ "15 :: u32"]) simp
qed

theorem generators_start_together_witness:
  "VGA_initDisplay scenario_symbols example_program example_program example_program
     16 17 18 21 power_on = Inr armed_example
   \<and> sm_enabled armed_example pio1 hsync_sm \<and> sm_enabled armed_example pio1 vsync_sm
   \<and> sm_enabled armed_example pio1 rgb_sm
   \<and> rgb_chan_0 power_on = 0 \<and> rgb_chan_1 power_on = 1
   \<and> busy (dma_ch armed_example 0)"
proof -
  have ch: "rgb_chan_0 power_on = 0" "rgb_chan_1 power_on = 1"
    by code_simp+
  from generators_start_together [OF init_example_ok] init_example_ok ch show ?thesis
    by auto
qed

text \<open>
  \<^bold>\<open>C6\<close> (channel descriptors). After a successful \<^verbatim>\<open>VGA_initDisplay\<close>, channel A
  (\<^verbatim>\<open>rgb_chan_0\<close>) moves units of one byte from an incrementing source to the fixed
  address of the colour generator's input FIFO (\<^verbatim>\<open>txf[rgb_sm]\<close>), \<open>TXCOUNT\<close> of them,
  and chains to channel B; channel B (\<^verbatim>\<open>rgb_chan_1\<close>) moves one unit of four bytes
  from the fixed address of \<^verbatim>\<open>address_pointer\<close> to the read-address register of
  channel A and chains to A; and both are configured with the trigger flag off. The
  pacing signal of channel A is the one item that is not as the claim has it: the code
  selects \<^verbatim>\<open>DREQ_PIO1_TX2\<close>, the request of state machine 2, while the colour
  generator is state machine \<open>rgb_sm = 3\<close>, whose request is another signal.
\<close>

theorem channel_A_pacing:
  assumes "VGA_initDisplay L hp vp rp vsync_pin hsync_pin r_pin pclk_pin st = Inr st'"
  shows "data_size (ctrl (dma_ch st' (rgb_chan_0 st))) = DMA_SIZE_8
       \<and> incr_read (ctrl (dma_ch st' (rgb_chan_0 st)))
       \<and> \<not> incr_write (ctrl (dma_ch st' (rgb_chan_0 st)))
       \<and> write_addr (dma_ch st' (rgb_chan_0 st)) = pio_txf_addr pio1 rgb_sm
       \<and> trans_count_reload (dma_ch st' (rgb_chan_0 st)) = TXCOUNT
       \<and> chain_to (ctrl (dma_ch st' (rgb_chan_0 st))) = rgb_chan_1 st
       \<and> data_size (ctrl (dma_ch st' (rgb_chan_1 st))) = DMA_SIZE_32
       \<and> \<not> incr_read (ctrl (dma_ch st' (rgb_chan_1 st)))
       \<and> read_addr (dma_ch st' (rgb_chan_1 st)) = address_pointer_cell L
       \<and> write_addr (dma_ch st' (rgb_chan_1 st)) = dma_ch_read_addr_reg (rgb_chan_0 st)
       \<and> trans_count_reload (dma_ch st' (rgb_chan_1 st)) = 1
       \<and> chain_to (ctrl (dma_ch st' (rgb_chan_1 st))) = rgb_chan_0 st
       \<and> filter (\<lambda>e. e = DMA_CHANNEL_CONFIGURE (rgb_chan_0 st) True
                      \<or> e = DMA_CHANNEL_CONFIGURE (rgb_chan_1 st) True) (logged_by st st') = []
       \<and> DMA_CHANNEL_CONFIGURE (rgb_chan_0 st) False \<in> set (logged_by st st')
       \<and> DMA_CHANNEL_CONFIGURE (rgb_chan_1 st) False \<in> set (logged_by st st')
       \<and> treq_sel (ctrl (dma_ch st' (rgb_chan_0 st))) = pio_get_dreq pio1 2 True
       \<and> treq_sel (ctrl (dma_ch st' (rgb_chan_0 st))) \<noteq> pio_get_dreq pio1 rgb_sm True"
proof -
  from VGA_initDisplay_Inr [OF assms] obtain ho vo ro A B M where
    A: "first_unclaimed (dma_claimed st) = Some A" and
    B: "first_unclaimed (insert A (dma_claimed st)) = Some B" and
    log: "hw_log st' = hw_log st @
        [PIO_ADD_PROGRAM pio1 ho, PIO_ADD_PROGRAM pio1 vo, PIO_ADD_PROGRAM pio1 ro,
         SM_PROGRAM_INIT pio1 0 ho hsync_pin, SM_PROGRAM_INIT pio1 1 vo vsync_pin,
         SM_PROGRAM_INIT pio1 3 ro r_pin,
         DMA_CLAIM_UNUSED_CHANNEL (int A), DMA_CLAIM_UNUSED_CHANNEL (int B),
         DMA_CLAIM_UNUSED_CHANNEL (int M),
         DMA_CHANNEL_CONFIGURE A False, DMA_CHANNEL_CONFIGURE B False,
         PIO_SM_PUT pio1 0 H_ACTIVE, PIO_SM_PUT pio1 1 239, PIO_SM_PUT pio1 3 RGB_ACTIVE,
         PIO_ENABLE_SM_MASK_IN_SYNC pio1 15, DMA_START_CHANNEL_MASK (push_bit A 1)]" and
    chA: "dma_ch st' A = triggered ((dma_ch st A)
          \<lparr>read_addr := vga_data_array L, write_addr := pio_txf_addr pio1 3,
           trans_count_reload := TXCOUNT, ctrl := scanout_config_A A B\<rparr>)" and
    chB: "dma_ch st' B = (dma_ch st B)
          \<lparr>read_addr := address_pointer_cell L, write_addr := dma_ch_read_addr_reg A,
           trans_count_reload := 1, ctrl := scanout_config_B A B\<rparr>"
    by blast
  note ch = init_channels [OF A B]
  have a: "data_size (ctrl (dma_ch st' A)) = DMA_SIZE_8" "incr_read (ctrl (dma_ch st' A))"
    "\<not> incr_write (ctrl (dma_ch st' A))" "write_addr (dma_ch st' A) = pio_txf_addr pio1 rgb_sm"
    "trans_count_reload (dma_ch st' A) = TXCOUNT" "chain_to (ctrl (dma_ch st' A)) = B"
    "treq_sel (ctrl (dma_ch st' A)) = DREQ_PIO1_TX2"
    by (simp_all add: chA triggered_fields scanout_config_A_def rgb_sm_def)
  have b: "data_size (ctrl (dma_ch st' B)) = DMA_SIZE_32" "\<not> incr_read (ctrl (dma_ch st' B))"
    "read_addr (dma_ch st' B) = address_pointer_cell L"
    "write_addr (dma_ch st' B) = dma_ch_read_addr_reg A"
    "trans_count_reload (dma_ch st' B) = 1" "chain_to (ctrl (dma_ch st' B)) = A"
    by (simp_all add: chB scanout_config_B_def)
  have l: "filter (\<lambda>e. e = DMA_CHANNEL_CONFIGURE A True \<or> e = DMA_CHANNEL_CONFIGURE B True)
             (logged_by st st') = []"
    "DMA_CHANNEL_CONFIGURE A False \<in> set (logged_by st st')"
    "DMA_CHANNEL_CONFIGURE B False \<in> set (logged_by st st')"
    by (simp_all add: logged_by_def log)
  have d: "DREQ_PIO1_TX2 = pio_get_dreq pio1 2 True"
    "DREQ_PIO1_TX2 \<noteq> pio_get_dreq pio1 rgb_sm True"
    by (simp_all add: DREQ_PIO1_TX2_def pio_get_dreq_def rgb_sm_def)
  from a b l d show ?thesis
    unfolding ch(1) ch(2) by simp
qed

theorem channel_A_pacing_witness:
  "VGA_initDisplay scenario_symbols example_program example_program example_program
     16 17 18 21 power_on = Inr armed_example
   \<and> rgb_chan_0 power_on = 0
   \<and> treq_sel (ctrl (dma_ch armed_example 0)) = DREQ_PIO_TX pio1 2
   \<and> write_addr (dma_ch armed_example 0) = pio_txf_addr pio1 3
   \<and> pio_get_dreq pio1 3 True = DREQ_PIO_TX pio1 3"
proof -
  have ch: "rgb_chan_0 power_on = 0"
    by code_simp
  from channel_A_pacing [OF init_example_ok] init_example_ok ch show ?thesis
    by (simp add: pio_get_dreq_def rgb_sm_def)
qed






end
